theory Spec2Isabelle
  imports Complex_Main "HOL-Library.Word" "HOL-Library.Sublist"
begin

section \<open>JavaScript strings\<close>

text \<open>
  A JavaScript string is a sequence of UTF-16 code units; \<open>substring\<close>, \<open>includes\<close>,
  \<open>length\<close> and the regular expression \<^verbatim>\<open>/[\u4e00-\u9fa5]/\<close> all work on code units.
  \<open>js\<close> writes an ASCII literal as such a sequence.
\<close>

type_synonym jsstring = "16 word list"

definition js :: "string \<Rightarrow> jsstring" where
  "js s = map (\<lambda>c. word_of_nat (of_char c)) s"

text \<open>\<open>s.substring(0, n)\<close> for a literal \<open>n \<ge> 0\<close>.\<close>

definition substring0 :: "jsstring \<Rightarrow> nat \<Rightarrow> jsstring" where
  "substring0 s n = take n s"

text \<open>\<open>s.includes(k)\<close>: \<open>k\<close> occurs in \<open>s\<close> as a contiguous run, that is, \<open>k\<close> is a
  prefix of \<open>s\<close> from some position on; the empty string occurs in every string.\<close>

fun includes_str :: "jsstring \<Rightarrow> jsstring \<Rightarrow> bool" where
  "includes_str [] k = (k = [])"
| "includes_str (c # s) k = (prefix k (c # s) \<or> includes_str s k)"

section \<open>Articles\<close>

text \<open>
  The article object of \<open>fetchRSS\<close>. The field \<open>date\<close> holds an ISO-8601 string that
  \<open>toISOString\<close> produced, and the code only ever reads it back through
  \<open>new Date(a.date)\<close>; the model stores that number of milliseconds. \<open>relevanceScore\<close> and
  \<open>finalScore\<close> are absent until the keyword edition assigns them; the only read of an
  absent one is \<open>article.relevanceScore || 0\<close>, so an absent score is \<open>0\<close>.
  \<open>finalScore\<close> is a JavaScript double; the model computes it in exact rational
  arithmetic.
\<close>

record article =
  title :: jsstring
  link :: jsstring
  date :: int
  category :: jsstring
  description :: jsstring
  summary :: jsstring
  relevanceScore :: nat
  finalScore :: rat

section \<open>Deduplication\<close>

text \<open>
  Both editions run the same loop in \<open>main\<close>:
  \<^verbatim>\<open>
  const uniqueArticles = [];
  const titles = new Set();
  allArticles.forEach(article => {
      if (!titles.has(article.title)) {
          titles.add(article.title);
          uniqueArticles.push(article);
      }
  });
  \<close>
  \<open>dedup_loop\<close> is the \<open>forEach\<close> with its two accumulators.
\<close>

fun dedup_loop :: "jsstring set \<Rightarrow> article list \<Rightarrow> article list \<Rightarrow> article list" where
  "dedup_loop titles uniqueArticles [] = uniqueArticles"
| "dedup_loop titles uniqueArticles (a # rest) =
     (if title a \<notin> titles
      then dedup_loop (insert (title a) titles) (uniqueArticles @ [a]) rest
      else dedup_loop titles uniqueArticles rest)"

definition deduplicate :: "article list \<Rightarrow> article list" where
  "deduplicate allArticles = dedup_loop {} [] allArticles"

section \<open>The keyword table\<close>

text \<open>
  \<open>CATEGORY_KEYWORDS\<close> is an object literal: category name to \<open>{include, exclude}\<close>. Its
  keys are not integer-like, so \<open>Object.keys\<close> lists them in the order they are written;
  the model is an association list in that order. The functions below take the table as
  an argument, and \<open>CATEGORY_KEYWORDS\<close> is the table the script ships.
  \<open>String.prototype.toLowerCase\<close> is the engine's; the functions that call it take it
  as the argument \<open>lc\<close>, and \<open>toLowerCase_ascii\<close> is what it does on the ASCII letters.
\<close>

record keyword_lists =
  kw_include :: "jsstring list"
  kw_exclude :: "jsstring list"

type_synonym keyword_table = "(jsstring \<times> keyword_lists) list"

definition toLowerCase_ascii :: "jsstring \<Rightarrow> jsstring" where
  "toLowerCase_ascii s = map (\<lambda>c. if 0x41 \<le> c \<and> c \<le> 0x5A then c + 0x20 else c) s"

definition materials_include :: "jsstring list" where
  "materials_include = map js
     [''aluminum'', ''aluminium'', ''steel'', ''alloy'', ''metal'', ''titanium'', ''magnesium'',
      ''lightweight metal'', ''automotive metal'',
      ''carbon fiber'', ''carbon fibre'', ''composite'', ''plastic'', ''polymer'',
      ''automotive plastic'', ''thermoplastic'', ''resin'', ''fiber glass'', ''fiberglass'']"

definition materials_exclude :: "jsstring list" where
  "materials_exclude = map js [''semiconductor'', ''chip'', ''processor'', ''cpu'', ''gpu'']"

definition corrosion_include :: "jsstring list" where
  "corrosion_include = map js
     [''corrosion'', ''anti-corrosion'', ''coating'', ''paint'', ''surface treatment'', ''rust'',
      ''galvaniz'', ''cathodic protection'', ''automotive coating'']"

definition health_include :: "jsstring list" where
  "health_include = map js
     [''formaldehyde'', ''voc'', ''volatile organic'', ''odor'', ''odour'', ''low-odor'',
      ''interior material'', ''cabin air'', ''air quality'', ''low-emission'',
      ''indoor air'', ''emission'', ''toxic'', ''health'', ''safety'', ''cleanroom'',
      ''antimicrobial'', ''antibacterial'', ''hypoallergenic'', ''eco-friendly'',
      ''non-toxic'', ''green material'', ''sustainable interior'', ''bio-based'',
      ''natural fiber'', ''recycled fabric'', ''breathable'', ''ventilation'']"

text \<open>The three category names, as UTF-16 code units (each is four CJK ideographs).\<close>

definition cat_materials :: jsstring where
  "cat_materials = [0x6750, 0x6599, 0x521B, 0x65B0]"

definition cat_corrosion :: jsstring where
  "cat_corrosion = [0x6C7D, 0x8F66, 0x9632, 0x8150]"

definition cat_health :: jsstring where
  "cat_health = [0x8F66, 0x5185, 0x5065, 0x5EB7]"

definition CATEGORY_KEYWORDS :: keyword_table where
  "CATEGORY_KEYWORDS =
     [(cat_materials, \<lparr>kw_include = materials_include, kw_exclude = materials_exclude\<rparr>),
      (cat_corrosion, \<lparr>kw_include = corrosion_include, kw_exclude = []\<rparr>),
      (cat_health, \<lparr>kw_include = health_include, kw_exclude = []\<rparr>)]"

section \<open>Relevance score and category (keyword edition)\<close>

text \<open>
  \<^verbatim>\<open>
  for (const excludeWord of keywords.exclude) {
      if (searchText.includes(excludeWord.toLowerCase())) { return 0; }
  }
  \<close>
  \<open>exclude_loop\<close> is \<open>True\<close> when the loop takes its early return.
\<close>

fun exclude_loop :: "(jsstring \<Rightarrow> jsstring) \<Rightarrow> jsstring \<Rightarrow> jsstring list \<Rightarrow> bool" where
  "exclude_loop lc searchText [] = False"
| "exclude_loop lc searchText (excludeWord # rest) =
     (if includes_str searchText (lc excludeWord) then True
      else exclude_loop lc searchText rest)"

text \<open>
  \<^verbatim>\<open>
  let matchCount = 0;
  for (const includeWord of keywords.include) {
      if (searchText.includes(includeWord.toLowerCase())) {
          matchCount++;
          if (article.title.toLowerCase().includes(includeWord.toLowerCase())) {
              matchCount += 2;
          }
      }
  }
  \<close>
\<close>

fun include_loop ::
  "(jsstring \<Rightarrow> jsstring) \<Rightarrow> jsstring \<Rightarrow> jsstring \<Rightarrow> nat \<Rightarrow> jsstring list \<Rightarrow> nat" where
  "include_loop lc searchText ttl matchCount [] = matchCount"
| "include_loop lc searchText ttl matchCount (includeWord # rest) =
     (if includes_str searchText (lc includeWord)
      then (if includes_str (lc ttl) (lc includeWord)
            then include_loop lc searchText ttl (matchCount + 1 + 2) rest
            else include_loop lc searchText ttl (matchCount + 1) rest)
      else include_loop lc searchText ttl matchCount rest)"

text \<open>
  \<open>calculateRelevanceScore(article, category)\<close>. The lookup \<open>CATEGORY_KEYWORDS[category]\<close>
  is only ever made with a key of the table (\<open>assignCategory\<close> walks \<open>Object.keys\<close>); a
  name that is not a key gives \<open>undefined\<close> and the score \<open>0\<close>.
\<close>

definition calculateRelevanceScore ::
  "(jsstring \<Rightarrow> jsstring) \<Rightarrow> keyword_table \<Rightarrow> article \<Rightarrow> jsstring \<Rightarrow> nat" where
  "calculateRelevanceScore lc tbl article cat =
     (case map_of tbl cat of
        None \<Rightarrow> 0
      | Some kws \<Rightarrow>
          (let searchText = lc (title article @ js '' '' @ description article) in
           if exclude_loop lc searchText (kw_exclude kws) then 0
           else min 100 (include_loop lc searchText (title article) 0 (kw_include kws) * 10)))"

text \<open>
  \<open>assignCategory\<close>: the loop over \<open>Object.keys(CATEGORY_KEYWORDS)\<close> with its two
  variables; \<open>bestCategory\<close> starts as \<open>null\<close> (\<open>None\<close>).
\<close>

fun assign_loop ::
  "(jsstring \<Rightarrow> jsstring) \<Rightarrow> keyword_table \<Rightarrow> article \<Rightarrow> jsstring option \<times> nat
   \<Rightarrow> jsstring list \<Rightarrow> jsstring option \<times> nat" where
  "assign_loop lc tbl article (bestCategory, bestScore) [] = (bestCategory, bestScore)"
| "assign_loop lc tbl article (bestCategory, bestScore) (cat # rest) =
     (if calculateRelevanceScore lc tbl article cat > bestScore
      then assign_loop lc tbl article (Some cat, calculateRelevanceScore lc tbl article cat) rest
      else assign_loop lc tbl article (bestCategory, bestScore) rest)"

definition assignCategory ::
  "(jsstring \<Rightarrow> jsstring) \<Rightarrow> keyword_table \<Rightarrow> article \<Rightarrow> jsstring option \<times> nat" where
  "assignCategory lc tbl article = assign_loop lc tbl article (None, 0) (map fst tbl)"

text \<open>
  Step 3 of \<open>main\<close>: an article is kept when \<open>result.category\<close> is truthy, that is
  neither \<open>null\<close> nor the empty string.
\<close>

fun categorize :: "(jsstring \<Rightarrow> jsstring) \<Rightarrow> keyword_table \<Rightarrow> article list \<Rightarrow> article list" where
  "categorize lc tbl [] = []"
| "categorize lc tbl (article # rest) =
     (case assignCategory lc tbl article of
        (None, score) \<Rightarrow> categorize lc tbl rest
      | (Some cat, score) \<Rightarrow>
          (if cat = [] then categorize lc tbl rest
           else article\<lparr>category := cat, relevanceScore := score\<rparr> # categorize lc tbl rest))"

section \<open>Ranking (keyword edition)\<close>

definition calculateFinalScore :: "article \<Rightarrow> int \<Rightarrow> int \<Rightarrow> rat" where
  "calculateFinalScore article maxDate minDate =
     (let articleTime = date article;
          timeRange = maxDate - minDate;
          timeScore = (if timeRange > 0
                       then (of_int (articleTime - minDate) / of_int timeRange) * 100
                       else 50)
      in of_nat (relevanceScore article) * (1 / 2) + timeScore * (1 / 2))"

text \<open>
  Step 4 of \<open>main\<close>: \<open>Math.max(...dates)\<close> and \<open>Math.min(...dates)\<close> over the categorized
  articles, then \<open>finalScore\<close> for each of them. On an empty list the \<open>forEach\<close> has no
  iteration and the two extrema are never read.
\<close>

definition score_all :: "article list \<Rightarrow> article list" where
  "score_all categorizedArticles =
     (case map date categorizedArticles of
        [] \<Rightarrow> []
      | d # dates \<Rightarrow>
          (let maxDate = fold max dates d;
               minDate = fold min dates d
           in map (\<lambda>article. article\<lparr>finalScore := calculateFinalScore article maxDate minDate\<rparr>)
                categorizedArticles))"

text \<open>
  \<open>Array.prototype.sort\<close> is stable, and both comparators (\<open>b.finalScore - a.finalScore\<close>,
  \<open>b.relevanceScore - a.relevanceScore\<close>) order by one key, descending: the result is the
  stable sort by the negated key.
\<close>

definition sort_by_finalScore :: "article list \<Rightarrow> article list" where
  "sort_by_finalScore xs = sort_key (\<lambda>a. - finalScore a) xs"

definition sort_by_relevanceScore :: "article list \<Rightarrow> article list" where
  "sort_by_relevanceScore xs = sort_key (\<lambda>a. - int (relevanceScore a)) xs"

section \<open>Quota selection (keyword edition)\<close>

definition MIN_PER_CATEGORY :: nat where
  "MIN_PER_CATEGORY = 3"

definition TOTAL_LIMIT :: nat where
  "TOTAL_LIMIT = 50"

text \<open>
  \<^verbatim>\<open>
  for (let i = 0; i < quota; i++) {
      limitedArticles.push(categoryArticles[i]);
      usedArticles.add(categoryArticles[i].link);
  }
  \<close>
  \<open>quota\<close> is at most the length of \<open>categoryArticles\<close>, so every read is in range.
\<close>

fun push_quota ::
  "nat \<Rightarrow> article list \<Rightarrow> article list \<times> jsstring set \<Rightarrow> article list \<times> jsstring set" where
  "push_quota 0 categoryArticles (limitedArticles, usedArticles) = (limitedArticles, usedArticles)"
| "push_quota (Suc n) [] (limitedArticles, usedArticles) = (limitedArticles, usedArticles)"
| "push_quota (Suc n) (a # rest) (limitedArticles, usedArticles) =
     push_quota n rest (limitedArticles @ [a], insert (link a) usedArticles)"

text \<open>The first round: \<open>categories.forEach(category => ...)\<close>.\<close>

fun phase1 ::
  "article list \<Rightarrow> article list \<times> jsstring set \<Rightarrow> jsstring list \<Rightarrow> article list \<times> jsstring set" where
  "phase1 categorizedArticles (limitedArticles, usedArticles) [] = (limitedArticles, usedArticles)"
| "phase1 categorizedArticles (limitedArticles, usedArticles) (cat # rest) =
     (let categoryArticles =
            sort_by_relevanceScore
              (filter (\<lambda>a. category a = cat \<and> link a \<notin> usedArticles) categorizedArticles);
          quota = min MIN_PER_CATEGORY (length categoryArticles)
      in phase1 categorizedArticles
           (push_quota quota categoryArticles (limitedArticles, usedArticles)) rest)"

text \<open>\<open>xs.slice(0, e)\<close>: a negative end counts from the end of the array.\<close>

definition slice0 :: "'a list \<Rightarrow> int \<Rightarrow> 'a list" where
  "slice0 xs e = (if e < 0 then take (nat (int (length xs) + e)) xs else take (nat e) xs)"

definition select_quota :: "jsstring list \<Rightarrow> article list \<Rightarrow> article list" where
  "select_quota categories categorizedArticles =
     (case phase1 categorizedArticles ([], {}) categories of
        (limitedArticles, usedArticles) \<Rightarrow>
          (let remaining = int TOTAL_LIMIT - int (length limitedArticles);
               remainingArticles =
                 slice0 (filter (\<lambda>a. link a \<notin> usedArticles) categorizedArticles) remaining
           in limitedArticles @ remainingArticles))"

text \<open>
  Steps 2 to 5 of \<open>main\<close> in the keyword edition, from the fetched articles to
  \<open>limitedArticles\<close>.
\<close>

definition categorizedArticles :: "(jsstring \<Rightarrow> jsstring) \<Rightarrow> keyword_table \<Rightarrow> article list \<Rightarrow> article list" where
  "categorizedArticles lc tbl allArticles = categorize lc tbl (deduplicate allArticles)"

definition rankedArticles :: "(jsstring \<Rightarrow> jsstring) \<Rightarrow> keyword_table \<Rightarrow> article list \<Rightarrow> article list" where
  "rankedArticles lc tbl allArticles =
     sort_by_finalScore (score_all (categorizedArticles lc tbl allArticles))"

definition limitedArticles_blended ::
  "(jsstring \<Rightarrow> jsstring) \<Rightarrow> keyword_table \<Rightarrow> article list \<Rightarrow> article list" where
  "limitedArticles_blended lc tbl allArticles =
     select_quota (map fst tbl) (rankedArticles lc tbl allArticles)"

section \<open>Ranking and cap (recency-only edition)\<close>

text \<open>
  \<^verbatim>\<open>
  uniqueArticles.sort((a, b) => new Date(b.date) - new Date(a.date));
  const limitedArticles = uniqueArticles.slice(0, 50);
  \<close>
\<close>

definition limitedArticles_recency :: "article list \<Rightarrow> article list" where
  "limitedArticles_recency allArticles =
     slice0 (sort_key (\<lambda>a. - date a) (deduplicate allArticles)) 50"

section \<open>Summaries\<close>

text \<open>
  \<open>isChinese\<close>: \<^verbatim>\<open>if (!text) return false; return /[\u4e00-\u9fa5]/.test(text);\<close>
  The pattern matches one code unit in the range; on the empty string both lines
  give \<open>false\<close>.
\<close>

definition isChinese :: "jsstring \<Rightarrow> bool" where
  "isChinese text = (if text = [] then False else list_ex (\<lambda>c. 0x4E00 \<le> c \<and> c \<le> 0x9FA5) text)"

text \<open>The placeholder every summarizer falls back to: \<open>text.substring(0, 150) + '...'\<close>.\<close>

definition fallback :: "jsstring \<Rightarrow> jsstring" where
  "fallback text = substring0 text 150 @ js ''...''"

text \<open>
  \<open>String.prototype.trim\<close> removes the white space and line terminator code units of
  ECMAScript from both ends.
\<close>

definition is_space :: "16 word \<Rightarrow> bool" where
  "is_space c = (c \<in> {0x09, 0x0A, 0x0B, 0x0C, 0x0D, 0x20, 0xA0, 0x1680, 0x2028, 0x2029,
                        0x202F, 0x205F, 0x3000, 0xFEFF} \<or> (0x2000 \<le> c \<and> c \<le> 0x200A))"

definition trim :: "jsstring \<Rightarrow> jsstring" where
  "trim s = rev (dropWhile is_space (rev (dropWhile is_space s)))"

text \<open>
  The world a summarizer talks to. One \<open>fetch\<close> either rejects (network failure) or
  resolves to a response with a status and a body. Of the body the code reads only the
  summary field of the parsed JSON (for a failed response, in the Qwen variant, the raw
  text): \<open>Unreadable\<close> when reading or parsing rejects, or when the field is there but is
  not a string, so that \<open>.trim()\<close> throws; \<open>WrongShape\<close> when the JSON parses and the
  field path is absent; \<open>Content s\<close> when the field is the string \<open>s\<close>. The environment
  \<open>env\<close> gives the result of the fetch of each attempt.
\<close>

datatype body = Unreadable | WrongShape | Content jsstring

datatype fetch_result = Rejected | Response nat body

definition replies :: "fetch_result list \<Rightarrow> nat \<Rightarrow> fetch_result" where
  "replies rs attempt = (if attempt < length rs then rs ! attempt else Rejected)"

text \<open>\<open>response.ok\<close>: the status is in the range 200 to 299.\<close>

definition ok :: "nat \<Rightarrow> bool" where
  "ok status = (200 \<le> status \<and> status \<le> 299)"

text \<open>
  What one iteration of the retry loop ends in: \<open>return s\<close>, or
  \<open>await delay(ms); continue\<close>. A \<open>try\<close> block gives \<open>None\<close> when it throws. What a call
  does to the outside is the list of its fetches and delays (in milliseconds).
\<close>

datatype outcome = Return jsstring | Continue nat

datatype event = Fetch | Delay nat

text \<open>
  The \<open>try\<close> block of \<open>generateSummaryWithDoubao\<close> and of \<open>generateSummaryWithDeepSeek\<close>
  (the two differ in URL, model name and prompt only): a failed response that is not
  retried here throws an error, a body without \<open>choices[0].message\<close> throws too.
  With \<open>retries = 0\<close> the loop has no iteration, so \<open>retries - 1\<close> is never negative where
  it is read.
\<close>

definition chat_try :: "nat \<Rightarrow> nat \<Rightarrow> fetch_result \<Rightarrow> outcome option" where
  "chat_try retries attempt r =
     (case r of
        Rejected \<Rightarrow> None
      | Response status b \<Rightarrow>
          (if \<not> ok status
           then (if (status = 429 \<or> status = 503) \<and> attempt < retries - 1
                 then Some (Continue (2 ^ attempt * 3000))
                 else None)
           else (case b of
                   Content s \<Rightarrow> Some (Return (trim s))
                 | WrongShape \<Rightarrow> None
                 | Unreadable \<Rightarrow> None)))"

text \<open>The \<open>catch\<close> block, the same in the three providers.\<close>

definition catch_block :: "nat \<Rightarrow> nat \<Rightarrow> jsstring \<Rightarrow> outcome" where
  "catch_block retries attempt text =
     (if attempt < retries - 1 then Continue (2 ^ attempt * 3000) else Return (fallback text))"

definition chat_attempt :: "nat \<Rightarrow> nat \<Rightarrow> jsstring \<Rightarrow> fetch_result \<Rightarrow> outcome" where
  "chat_attempt retries attempt text r =
     (case chat_try retries attempt r of
        None \<Rightarrow> catch_block retries attempt text
      | Some out \<Rightarrow> out)"

text \<open>
  The \<open>try\<close> block of \<open>generateSummaryWithQwen\<close>: a failed response first reads its text
  (\<open>await response.text()\<close>), then is retried on 429 and 503 and otherwise returns the
  placeholder; a body without \<open>output.text\<close>, or with an empty one, returns the placeholder.
\<close>

definition qwen_try :: "nat \<Rightarrow> nat \<Rightarrow> jsstring \<Rightarrow> fetch_result \<Rightarrow> outcome option" where
  "qwen_try retries attempt text r =
     (case r of
        Rejected \<Rightarrow> None
      | Response status b \<Rightarrow>
          (if \<not> ok status
           then (if b = Unreadable then None
                 else if (status = 429 \<or> status = 503) \<and> attempt < retries - 1
                 then Some (Continue (2 ^ attempt * 3000))
                 else Some (Return (fallback text)))
           else (case b of
                   Unreadable \<Rightarrow> None
                 | WrongShape \<Rightarrow> Some (Return (fallback text))
                 | Content s \<Rightarrow>
                     (if s = [] then Some (Return (fallback text))
                      else Some (Return (trim s))))))"

definition qwen_attempt :: "nat \<Rightarrow> nat \<Rightarrow> jsstring \<Rightarrow> fetch_result \<Rightarrow> outcome" where
  "qwen_attempt retries attempt text r =
     (case qwen_try retries attempt text r of
        None \<Rightarrow> catch_block retries attempt text
      | Some out \<Rightarrow> out)"

text \<open>
  \<^verbatim>\<open>
  for (let attempt = 0; attempt < retries; attempt++) {
      try { ... fetch ... } catch (error) { ... }
  }
  return text.substring(0, 150) + '...';
  \<close>
  The loop of the three providers; \<open>step\<close> is the iteration (\<open>try\<close> and \<open>catch\<close>), which
  does one fetch.
\<close>

function retry_loop ::
  "(nat \<Rightarrow> outcome) \<Rightarrow> jsstring \<Rightarrow> nat \<Rightarrow> nat \<Rightarrow> jsstring \<times> event list" where
  "retry_loop step text retries attempt =
     (if attempt < retries
      then (case step attempt of
              Return s \<Rightarrow> (s, [Fetch])
            | Continue ms \<Rightarrow>
                (case retry_loop step text retries (attempt + 1) of
                   (s, trace) \<Rightarrow> (s, Fetch # Delay ms # trace)))
      else (fallback text, []))"
  by pat_completeness auto
termination
  by (relation "measure (\<lambda>(step, text, retries, attempt). retries - attempt)") auto

declare retry_loop.simps [simp del]

text \<open>
  An API key comes from \<open>process.env\<close>: \<open>undefined\<close> (\<open>None\<close>) or a string. It is truthy
  when it is a string other than the empty one; \<open>!apiKey\<close> is the negation. \<open>retries\<close>
  has the default 3 and no caller passes it.
\<close>

definition configured :: "jsstring option \<Rightarrow> bool" where
  "configured apiKey = (case apiKey of None \<Rightarrow> False | Some k \<Rightarrow> k \<noteq> [])"

definition generateSummaryWithDoubao ::
  "jsstring option \<Rightarrow> (nat \<Rightarrow> fetch_result) \<Rightarrow> jsstring \<Rightarrow> jsstring \<times> event list" where
  "generateSummaryWithDoubao DOUBAO_API_KEY env text =
     (if \<not> configured DOUBAO_API_KEY then (fallback text, [])
      else retry_loop (\<lambda>attempt. chat_attempt 3 attempt text (env attempt)) text 3 0)"

definition generateSummaryWithDeepSeek ::
  "jsstring option \<Rightarrow> (nat \<Rightarrow> fetch_result) \<Rightarrow> jsstring \<Rightarrow> jsstring \<times> event list" where
  "generateSummaryWithDeepSeek DEEPSEEK_API_KEY env text =
     (if \<not> configured DEEPSEEK_API_KEY then (fallback text, [])
      else retry_loop (\<lambda>attempt. chat_attempt 3 attempt text (env attempt)) text 3 0)"

definition generateSummaryWithQwen ::
  "jsstring option \<Rightarrow> (nat \<Rightarrow> fetch_result) \<Rightarrow> jsstring \<Rightarrow> jsstring \<times> event list" where
  "generateSummaryWithQwen QWEN_API_KEY env text =
     (if \<not> configured QWEN_API_KEY then (fallback text, [])
      else if isChinese text then (fallback text, [])
      else retry_loop (\<lambda>attempt. qwen_attempt 3 attempt text (env attempt)) text 3 0)"

text \<open>\<open>generateSummary\<close> of the recency-only edition with AI summaries.\<close>

definition generateSummary ::
  "jsstring \<Rightarrow> jsstring option \<Rightarrow> jsstring option \<Rightarrow> (nat \<Rightarrow> fetch_result) \<Rightarrow> jsstring
   \<Rightarrow> jsstring \<times> event list" where
  "generateSummary AI_PROVIDER DOUBAO_API_KEY DEEPSEEK_API_KEY env text =
     (if isChinese text then (substring0 text 150 @ js ''...'', [])
      else if AI_PROVIDER = js ''deepseek''
      then generateSummaryWithDeepSeek DEEPSEEK_API_KEY env text
      else generateSummaryWithDoubao DOUBAO_API_KEY env text)"

section \<open>The articles of the snapshot\<close>

text \<open>
  \<open>generateSummariesBatch\<close> assigns \<open>article.summary\<close> for every article of the list, in
  batches of three concurrent calls; the list and its order are not touched. \<open>envs i\<close> is
  the environment the call for the article at index \<open>i\<close> meets. The snapshot's \<open>articles\<close>
  is the list after this step.
\<close>

definition snapshot_blended ::
  "(jsstring \<Rightarrow> jsstring) \<Rightarrow> keyword_table \<Rightarrow> jsstring option \<Rightarrow> (nat \<Rightarrow> nat \<Rightarrow> fetch_result)
   \<Rightarrow> article list \<Rightarrow> article list" where
  "snapshot_blended lc tbl QWEN_API_KEY envs allArticles =
     (let limitedArticles = limitedArticles_blended lc tbl allArticles in
      if \<not> configured QWEN_API_KEY
      then map (\<lambda>a. a\<lparr>summary := substring0 (description a) 150 @ js ''...''\<rparr>) limitedArticles
      else map (\<lambda>(i, a). a\<lparr>summary := fst (generateSummaryWithQwen QWEN_API_KEY (envs i) (description a))\<rparr>)
             (enumerate 0 limitedArticles))"

text \<open>
  In the recency-only edition with AI summaries the source text of a call is
  \<open>article.description || article.content || ''\<close>; the articles have no \<open>content\<close>, so it
  is the description.
\<close>

definition snapshot_recency ::
  "jsstring \<Rightarrow> jsstring option \<Rightarrow> jsstring option \<Rightarrow> (nat \<Rightarrow> nat \<Rightarrow> fetch_result)
   \<Rightarrow> article list \<Rightarrow> article list" where
  "snapshot_recency AI_PROVIDER DOUBAO_API_KEY DEEPSEEK_API_KEY envs allArticles =
     (let limitedArticles = limitedArticles_recency allArticles in
      if configured DOUBAO_API_KEY \<or> configured DEEPSEEK_API_KEY
      then map (\<lambda>(i, a). a\<lparr>summary :=
                   fst (generateSummary AI_PROVIDER DOUBAO_API_KEY DEEPSEEK_API_KEY (envs i)
                          (description a))\<rparr>)
             (enumerate 0 limitedArticles)
      else map (\<lambda>a. a\<lparr>summary := substring0 (description a) 150 @ js ''...''\<rparr>) limitedArticles)"

section \<open>Reference definitions, auxiliary functions and sample inputs\<close>

text \<open>
  The relevance score as the specification words it: the search text is the lowercased
  title, a space and the description; an exclude keyword occurring in it vetoes the
  category; otherwise every include keyword occurring in it counts one point, and two
  more when it also occurs in the lowercased title; the score is ten times the points,
  capped at 100.
\<close>

definition search_text :: "(jsstring \<Rightarrow> jsstring) \<Rightarrow> article \<Rightarrow> jsstring" where
  "search_text lc a = lc (title a @ js '' '' @ description a)"

definition spec_points :: "(jsstring \<Rightarrow> jsstring) \<Rightarrow> keyword_lists \<Rightarrow> article \<Rightarrow> nat" where
  "spec_points lc kws a =
     sum_list (map (\<lambda>k. if includes_str (search_text lc a) k
                         then 1 + (if includes_str (lc (title a)) k then 2 else 0)
                         else 0) (kw_include kws))"

definition spec_relevance :: "(jsstring \<Rightarrow> jsstring) \<Rightarrow> keyword_lists \<Rightarrow> article \<Rightarrow> nat" where
  "spec_relevance lc kws a =
     (if \<exists>k \<in> set (kw_exclude kws). includes_str (search_text lc a) k then 0
      else min 100 (10 * spec_points lc kws a))"

text \<open>
  The object \<open>fetchRSS\<close> of the keyword edition builds for a feed item: \<open>category\<close> and
  \<open>summary\<close> empty, no scores yet.
\<close>

definition fetched :: "string \<Rightarrow> string \<Rightarrow> int \<Rightarrow> string \<Rightarrow> article" where
  "fetched t l d ds =
     \<lparr>title = js t, link = js l, date = d, category = [], description = js ds,
      summary = [], relevanceScore = 0, finalScore = 0\<rparr>"

text \<open>What the deduplication loop appends, as a function of the titles seen so far.\<close>

fun fresh :: "jsstring set \<Rightarrow> article list \<Rightarrow> article list" where
  "fresh S [] = []"
| "fresh S (a # rest) =
     (if title a \<in> S then fresh S rest else a # fresh (insert (title a) S) rest)"

text \<open>
  What the first round appends for each category, given the links used before it: the
  first \<open>MIN_PER_CATEGORY\<close> articles of that category, by descending relevance, among
  those whose link is not used yet.
\<close>

definition quota_group :: "article list \<Rightarrow> jsstring set \<Rightarrow> jsstring \<Rightarrow> article list" where
  "quota_group xs used cat =
     take MIN_PER_CATEGORY
       (sort_by_relevanceScore (filter (\<lambda>a. category a = cat \<and> link a \<notin> used) xs))"

fun quota_groups :: "article list \<Rightarrow> jsstring set \<Rightarrow> jsstring list \<Rightarrow> article list list" where
  "quota_groups xs used [] = []"
| "quota_groups xs used (cat # rest) =
     quota_group xs used cat
     # quota_groups xs (used \<union> link ` set (quota_group xs used cat)) rest"

text \<open>
  The time score as the specification words it, and the two halves of step 3 of \<open>main\<close>:
  which articles it keeps, and what it writes into a kept one.
\<close>

definition spec_timeScore :: "int \<Rightarrow> int \<Rightarrow> int \<Rightarrow> rat" where
  "spec_timeScore minDate maxDate articleTime =
     (if maxDate = minDate then 50
      else of_int (articleTime - minDate) / of_int (maxDate - minDate) * 100)"


definition retained :: "(jsstring \<Rightarrow> jsstring) \<Rightarrow> keyword_table \<Rightarrow> article \<Rightarrow> bool" where
  "retained lc tbl a = (case fst (assignCategory lc tbl a) of None \<Rightarrow> False | Some c \<Rightarrow> c \<noteq> [])"

definition labelled :: "(jsstring \<Rightarrow> jsstring) \<Rightarrow> keyword_table \<Rightarrow> article \<Rightarrow> article" where
  "labelled lc tbl a =
     a\<lparr>category := the (fst (assignCategory lc tbl a)),
       relevanceScore := snd (assignCategory lc tbl a)\<rparr>"

text \<open>
  Two feeds. In \<open>sample_feed\<close> the article on paint is the newest matching one and the
  article "News" matches no category. In \<open>linkless_feed\<close> the feed items carry no
  \<open>link\<close>, so that \<open>fetchRSS\<close> gives each of them the empty link
  (\<^verbatim>\<open>(item.link || '').trim()\<close>).
\<close>

definition sample_feed :: "article list" where
  "sample_feed =
     [fetched ''Paint'' ''p'' 1000 '''', fetched ''Steel'' ''s'' 0 '''',
      fetched ''News'' ''n'' 2000 '''']"

definition linkless_feed :: "article list" where
  "linkless_feed =
     [fetched ''Steel'' '''' 0 '''', fetched ''Paint'' '''' 0 '''',
      fetched ''Rust'' '''' 0 '''', fetched ''Coating'' '''' 0 '''']"







section \<open>Properties of the deduplication\<close>

lemma dedup_loop_fresh: "dedup_loop S acc xs = acc @ fresh S xs"
  by (induction xs arbitrary: S acc) auto

lemma deduplicate_fresh: "deduplicate xs = fresh {} xs"
  by (simp add: deduplicate_def dedup_loop_fresh)

lemma fresh_titles: "title ` set (fresh S xs) = title ` set xs - S"
  by (induction xs arbitrary: S) auto

lemma fresh_distinct: "distinct (map title (fresh S xs))"
proof (induction xs arbitrary: S)
  case Nil
  show ?case by simp
next
  case (Cons a rest)
  have "title a \<notin> title ` set (fresh (insert (title a) S) rest)"
    by (simp add: fresh_titles)
  with Cons show ?case by simp
qed

lemma fresh_length: "length (fresh S xs) \<le> length xs"
  by (induction xs arbitrary: S) (auto intro: le_SucI)

lemma fresh_subseq: "subseq (fresh S xs) xs"
  by (induction xs arbitrary: S) auto

lemma fresh_mono_find:
  "t \<notin> S \<Longrightarrow> find (\<lambda>b. title b = t) (fresh S xs) = find (\<lambda>b. title b = t) xs"
proof (induction xs arbitrary: S)
  case Nil
  show ?case by simp
next
  case (Cons a rest)
  show ?case
  proof (cases "title a \<in> S")
    case True
    with Cons.prems have "title a \<noteq> t" by auto
    with True Cons show ?thesis by simp
  next
    case False
    show ?thesis
    proof (cases "title a = t")
      case True
      with False show ?thesis by simp
    next
      case neq: False
      with Cons.prems have "t \<notin> insert (title a) S" by auto
      from Cons.IH [OF this] False neq show ?thesis by simp
    qed
  qed
qed

lemma fresh_fixed:
  "distinct (map title ys) \<Longrightarrow> title ` set ys \<inter> S = {} \<Longrightarrow> fresh S ys = ys"
proof (induction ys arbitrary: S)
  case Nil
  show ?case by simp
next
  case (Cons a rest)
  from Cons.prems have a: "title a \<notin> S" by auto
  from Cons.prems have "title ` set rest \<inter> insert (title a) S = {}" by auto
  moreover from Cons.prems have "distinct (map title rest)" by simp
  ultimately have "fresh (insert (title a) S) rest = rest" by (rule Cons.IH [rotated])
  with a show ?case by simp
qed

text \<open>
  C8. The deduplication is idempotent, never lengthens the list, leaves no two articles
  with the same title (titles compared as they are, code unit by code unit), keeps the
  articles in input order, and keeps for every title the first article of the input
  that carries it.
\<close>

theorem C8_deduplicate:
  "deduplicate (deduplicate xs) = deduplicate xs
   \<and> length (deduplicate xs) \<le> length xs
   \<and> distinct (map title (deduplicate xs))
   \<and> subseq (deduplicate xs) xs
   \<and> find (\<lambda>b. title b = t) (deduplicate xs) = find (\<lambda>b. title b = t) xs"
proof -
  have "fresh {} (fresh {} xs) = fresh {} xs"
    by (rule fresh_fixed) (simp_all add: fresh_distinct)
  then show ?thesis
    by (simp add: deduplicate_fresh fresh_length fresh_distinct fresh_subseq fresh_mono_find)
qed

section \<open>Properties of the relevance score\<close>

lemma exclude_loop_iff:
  "\<forall>k \<in> set ws. lc k = k \<Longrightarrow>
   exclude_loop lc t ws = (\<exists>k \<in> set ws. includes_str t k)"
  by (induction ws) auto

lemma include_loop_sum:
  "\<forall>k \<in> set ws. lc k = k \<Longrightarrow>
   include_loop lc t ttl n ws =
     n + sum_list (map (\<lambda>k. if includes_str t k
                              then 1 + (if includes_str (lc ttl) k then 2 else 0)
                              else 0) ws)"
  by (induction ws arbitrary: n) auto

lemma calculateRelevanceScore_le: "calculateRelevanceScore lc tbl a c \<le> 100"
  by (simp add: calculateRelevanceScore_def Let_def split: option.split)

lemma calculateRelevanceScore_dvd: "10 dvd calculateRelevanceScore lc tbl a c"
  by (simp add: calculateRelevanceScore_def Let_def min_def split: option.split)

lemmas table_defs =
  CATEGORY_KEYWORDS_def cat_materials_def cat_corrosion_def cat_health_def
  materials_include_def materials_exclude_def corrosion_include_def health_include_def

lemmas eval_defs = js_def toLowerCase_ascii_def fetched_def Let_def

text \<open>Every keyword of the shipped table is lowercase already.\<close>

lemma materials_lowercase:
  "list_all (\<lambda>k. toLowerCase_ascii k = k) (materials_include @ materials_exclude)"
  by (simp add: materials_include_def materials_exclude_def js_def toLowerCase_ascii_def)

lemma corrosion_lowercase: "list_all (\<lambda>k. toLowerCase_ascii k = k) corrosion_include"
  by (simp add: corrosion_include_def js_def toLowerCase_ascii_def)

lemma health_lowercase: "list_all (\<lambda>k. toLowerCase_ascii k = k) health_include"
  by (simp add: health_include_def js_def toLowerCase_ascii_def)

lemma CATEGORY_KEYWORDS_lowercase:
  "list_all (\<lambda>(cat, kws). list_all (\<lambda>k. toLowerCase_ascii k = k) (kw_include kws @ kw_exclude kws))
     CATEGORY_KEYWORDS"
  using materials_lowercase corrosion_lowercase health_lowercase
  by (simp add: CATEGORY_KEYWORDS_def)

text \<open>
  C1. For a category of the table whose keywords are lowercase already (as all shipped
  keywords are), the relevance score of an article is the reference score: 0 when an
  exclude keyword occurs in the lowercased "title description" text, otherwise
  min(100, 10 * P), P counting 1 for each include keyword occurring in that text and 2
  more when it also occurs in the lowercased title. Hence the score is at most 100, and
  an article containing an exclude keyword scores 0.
\<close>

theorem C1_relevance_score:
  assumes "map_of tbl cat = Some kws"
    and "\<forall>k \<in> set (kw_include kws) \<union> set (kw_exclude kws). lc k = k"
  shows "calculateRelevanceScore lc tbl a cat = spec_relevance lc kws a
         \<and> calculateRelevanceScore lc tbl a cat \<le> 100
         \<and> ((\<exists>k \<in> set (kw_exclude kws). includes_str (search_text lc a) k)
              \<longrightarrow> calculateRelevanceScore lc tbl a cat = 0)"
proof -
  from assms(2) have ex: "exclude_loop lc (search_text lc a) (kw_exclude kws)
      = (\<exists>k \<in> set (kw_exclude kws). includes_str (search_text lc a) k)"
    by (intro exclude_loop_iff) blast
  from assms(2)
  have inc: "include_loop lc (search_text lc a) (title a) 0 (kw_include kws) = spec_points lc kws a"
    unfolding spec_points_def by (subst include_loop_sum) auto
  have eq: "calculateRelevanceScore lc tbl a cat = spec_relevance lc kws a"
    using assms(1) ex inc
    by (simp add: calculateRelevanceScore_def spec_relevance_def search_text_def [symmetric]
        Let_def mult.commute)
  then show ?thesis
    by (simp add: spec_relevance_def)
qed

text \<open>
  The theorem at the materials category of the shipped table: "Steel" with the
  description "a new alloy" scores 3 + 1 points; with the description "a cpu alloy" the
  exclude keyword "cpu" vetoes it.
\<close>

theorem C1_relevance_score_witness:
  "map_of CATEGORY_KEYWORDS cat_materials
     = Some \<lparr>kw_include = materials_include, kw_exclude = materials_exclude\<rparr>
   \<and> list_all (\<lambda>k. toLowerCase_ascii k = k) (materials_include @ materials_exclude)
   \<and> calculateRelevanceScore toLowerCase_ascii CATEGORY_KEYWORDS
        (fetched ''Steel'' ''u'' 0 ''a new alloy'') cat_materials = 40
   \<and> spec_relevance toLowerCase_ascii
        \<lparr>kw_include = materials_include, kw_exclude = materials_exclude\<rparr>
        (fetched ''Steel'' ''u'' 0 ''a new alloy'') = 40
   \<and> calculateRelevanceScore toLowerCase_ascii CATEGORY_KEYWORDS
        (fetched ''Steel'' ''u'' 0 ''a cpu alloy'') cat_materials = 0"
proof -
  let ?kws = "\<lparr>kw_include = materials_include, kw_exclude = materials_exclude\<rparr>"
  have m: "map_of CATEGORY_KEYWORDS cat_materials = Some ?kws"
    by (simp add: CATEGORY_KEYWORDS_def)
  have l: "\<forall>k \<in> set (kw_include ?kws) \<union> set (kw_exclude ?kws). toLowerCase_ascii k = k"
    using materials_lowercase by (simp add: list_all_iff)
  have s1: "calculateRelevanceScore toLowerCase_ascii CATEGORY_KEYWORDS
        (fetched ''Steel'' ''u'' 0 ''a new alloy'') cat_materials = 40"
    by (simp add: calculateRelevanceScore_def m materials_include_def materials_exclude_def eval_defs)
  have v: "includes_str (search_text toLowerCase_ascii (fetched ''Steel'' ''u'' 0 ''a cpu alloy''))
             (js ''cpu'')"
    by (simp add: search_text_def eval_defs)
  then have "\<exists>k \<in> set (kw_exclude ?kws).
      includes_str (search_text toLowerCase_ascii (fetched ''Steel'' ''u'' 0 ''a cpu alloy'')) k"
    by (simp add: materials_exclude_def)
  with C1_relevance_score [OF m l, of "fetched ''Steel'' ''u'' 0 ''a cpu alloy''"]
  have s2: "calculateRelevanceScore toLowerCase_ascii CATEGORY_KEYWORDS
        (fetched ''Steel'' ''u'' 0 ''a cpu alloy'') cat_materials = 0"
    by blast
  from C1_relevance_score [OF m l, of "fetched ''Steel'' ''u'' 0 ''a new alloy''"] s1
  have "spec_relevance toLowerCase_ascii ?kws (fetched ''Steel'' ''u'' 0 ''a new alloy'') = 40"
    by simp
  with m s1 s2 materials_lowercase show ?thesis by simp
qed

section \<open>Properties of the quota selection\<close>

lemma push_quota_take:
  "push_quota n ys (acc, used) = (acc @ take n ys, used \<union> link ` set (take n ys))"
  by (induction n ys "(acc, used)" arbitrary: acc used rule: push_quota.induct) auto

lemma take_min_length: "take (min n (length ys)) ys = take n ys"
  by (simp add: min_def)

lemma phase1_groups:
  "phase1 xs (acc, used) cats =
     (acc @ concat (quota_groups xs used cats),
      used \<union> link ` set (concat (quota_groups xs used cats)))"
proof (induction cats arbitrary: acc used)
  case Nil
  show ?case by simp
next
  case (Cons cat rest)
  show ?case
    by (simp add: Let_def push_quota_take take_min_length Cons.IH Un_assoc image_Un quota_group_def)
qed


lemma quota_group_props:
  "\<forall>a \<in> set (quota_group xs used cat). category a = cat \<and> link a \<notin> used \<and> a \<in> set xs"
  "length (quota_group xs used cat) \<le> MIN_PER_CATEGORY"
proof -
  show "\<forall>a \<in> set (quota_group xs used cat). category a = cat \<and> link a \<notin> used \<and> a \<in> set xs"
  proof
    fix a assume "a \<in> set (quota_group xs used cat)"
    then have "a \<in> set (sort_by_relevanceScore
        (filter (\<lambda>a. category a = cat \<and> link a \<notin> used) xs))"
      unfolding quota_group_def by (rule in_set_takeD)
    then show "category a = cat \<and> link a \<notin> used \<and> a \<in> set xs"
      by (simp add: sort_by_relevanceScore_def)
  qed
  show "length (quota_group xs used cat) \<le> MIN_PER_CATEGORY"
    by (simp add: quota_group_def)
qed

lemma quota_groups_concat_length:
  "length (concat (quota_groups xs used cats)) \<le> MIN_PER_CATEGORY * length cats"
proof (induction cats arbitrary: used)
  case Nil
  show ?case by simp
next
  case (Cons cat rest)
  have "length (concat (quota_groups xs (used \<union> link ` set (quota_group xs used cat)) rest))
      \<le> MIN_PER_CATEGORY * length rest"
    by (rule Cons.IH)
  with quota_group_props(2) [of xs used cat] show ?case by simp
qed

lemma quota_groups_subset: "set (concat (quota_groups xs used cats)) \<subseteq> set xs"
proof (induction cats arbitrary: used)
  case Nil
  show ?case by simp
next
  case (Cons cat rest)
  have "set (quota_group xs used cat) \<subseteq> set xs"
    using quota_group_props(1) [of xs used cat] by blast
  with Cons.IH show ?case by simp
qed

lemma select_quota_groups:
  "select_quota cats xs =
     concat (quota_groups xs {} cats)
     @ slice0 (filter (\<lambda>a. link a \<notin> link ` set (concat (quota_groups xs {} cats))) xs)
         (int TOTAL_LIMIT - int (length (concat (quota_groups xs {} cats))))"
  by (simp add: select_quota_def phase1_groups Let_def)

lemma slice0_length: "0 \<le> e \<Longrightarrow> length (slice0 xs e) \<le> nat e"
  by (simp add: slice0_def)

lemma slice0_subset: "set (slice0 xs e) \<subseteq> set xs"
  by (auto simp: slice0_def dest: in_set_takeD)

lemma select_quota_length:
  assumes "MIN_PER_CATEGORY * length cats \<le> TOTAL_LIMIT"
  shows "length (select_quota cats xs) \<le> TOTAL_LIMIT"
proof -
  let ?g = "concat (quota_groups xs {} cats)"
  have g: "length ?g \<le> TOTAL_LIMIT"
    using quota_groups_concat_length [of xs "{}" cats] assms by linarith
  then have "0 \<le> int TOTAL_LIMIT - int (length ?g)" by simp
  from slice0_length [OF this]
  have "length (slice0 (filter (\<lambda>a. link a \<notin> link ` set ?g) xs)
                  (int TOTAL_LIMIT - int (length ?g))) \<le> TOTAL_LIMIT - length ?g"
    by (simp add: nat_diff_distrib')
  with g show ?thesis by (simp add: select_quota_groups)
qed

lemma select_quota_subset: "set (select_quota cats xs) \<subseteq> set xs"
proof -
  have "set (slice0 (filter (\<lambda>a. link a \<notin> link ` set (concat (quota_groups xs {} cats))) xs)
          (int TOTAL_LIMIT - int (length (concat (quota_groups xs {} cats))))) \<subseteq> set xs"
    using slice0_subset by fastforce
  with quota_groups_subset [of xs "{}" cats] show ?thesis
    by (simp add: select_quota_groups)
qed

section \<open>The cap on the article list\<close>

lemma snapshot_blended_length:
  "length (snapshot_blended lc tbl key envs allArticles) = length (limitedArticles_blended lc tbl allArticles)"
  by (simp add: snapshot_blended_def Let_def)

lemma snapshot_recency_length:
  "length (snapshot_recency p dk sk envs allArticles) = length (limitedArticles_recency allArticles)"
  by (simp add: snapshot_recency_def Let_def)

lemma CATEGORY_KEYWORDS_length: "length CATEGORY_KEYWORDS = 3"
  by (simp add: CATEGORY_KEYWORDS_def)

text \<open>
  C3. The final article list never has more than 50 articles, whatever was fetched. In
  the recency-only edition it is the first 50 of the sorted list. In the keyword edition
  the first round appends at most 3 articles for each of the configured categories, the
  second round appends at most 50 minus that count, and the two together are the list.
  The summaries step does not change the length.
\<close>

theorem C3_at_most_50:
  "length (limitedArticles_recency allArticles) \<le> 50
   \<and> length (snapshot_recency p dk sk envs allArticles) \<le> 50
   \<and> length (fst (phase1 xs ([], {}) (map fst CATEGORY_KEYWORDS))) \<le> 3 * length CATEGORY_KEYWORDS
   \<and> (\<exists>rest. select_quota (map fst CATEGORY_KEYWORDS) xs
                = fst (phase1 xs ([], {}) (map fst CATEGORY_KEYWORDS)) @ rest
              \<and> length rest \<le> 50 - length (fst (phase1 xs ([], {}) (map fst CATEGORY_KEYWORDS))))
   \<and> length (limitedArticles_blended lc CATEGORY_KEYWORDS allArticles) \<le> 50
   \<and> length (snapshot_blended lc CATEGORY_KEYWORDS key envs' allArticles) \<le> 50"
proof -
  have r: "length (limitedArticles_recency allArticles) \<le> 50"
    by (simp add: limitedArticles_recency_def slice0_def)
  have q: "MIN_PER_CATEGORY * length (map fst CATEGORY_KEYWORDS) \<le> TOTAL_LIMIT"
    by (simp add: MIN_PER_CATEGORY_def TOTAL_LIMIT_def CATEGORY_KEYWORDS_length)
  have p1: "length (fst (phase1 xs ([], {}) (map fst CATEGORY_KEYWORDS))) \<le> 3 * length CATEGORY_KEYWORDS"
    using quota_groups_concat_length [of xs "{}" "map fst CATEGORY_KEYWORDS"]
    by (simp add: phase1_groups MIN_PER_CATEGORY_def)
  have s: "\<And>ys. length (select_quota (map fst CATEGORY_KEYWORDS) ys) \<le> 50"
    using select_quota_length [OF q] by (simp add: TOTAL_LIMIT_def)
  have p2: "\<exists>rest. select_quota (map fst CATEGORY_KEYWORDS) xs
                = fst (phase1 xs ([], {}) (map fst CATEGORY_KEYWORDS)) @ rest
              \<and> length rest \<le> 50 - length (fst (phase1 xs ([], {}) (map fst CATEGORY_KEYWORDS)))"
  proof -
    let ?g = "concat (quota_groups xs {} (map fst CATEGORY_KEYWORDS))"
    let ?rest = "slice0 (filter (\<lambda>a. link a \<notin> link ` set ?g) xs)
                   (int TOTAL_LIMIT - int (length ?g))"
    have "length ?g \<le> 50" using p1 by (simp add: phase1_groups CATEGORY_KEYWORDS_length)
    then have "0 \<le> int TOTAL_LIMIT - int (length ?g)" by (simp add: TOTAL_LIMIT_def)
    from slice0_length [OF this] have "length ?rest \<le> 50 - length ?g"
      by (simp add: TOTAL_LIMIT_def nat_diff_distrib')
    then show ?thesis by (simp add: select_quota_groups phase1_groups)
  qed
  have b: "length (limitedArticles_blended lc CATEGORY_KEYWORDS allArticles) \<le> 50"
    unfolding limitedArticles_blended_def by (rule s)
  from r p1 p2 b show ?thesis
    by (simp only: snapshot_blended_length snapshot_recency_length simp_thms)
qed

section \<open>Properties of the category assignment and of the ranking\<close>

lemma assign_loop_spec:
  "assign_loop lc tbl a (bc, bs) cs = (bc', bs') \<Longrightarrow>
     bs \<le> bs' \<and> (\<forall>c \<in> set cs. calculateRelevanceScore lc tbl a c \<le> bs')
     \<and> (if bs' = bs then bc' = bc
         else bc' = find (\<lambda>c. calculateRelevanceScore lc tbl a c = bs') cs \<and> bc' \<noteq> None)"
proof (induction cs arbitrary: bc bs)
  case Nil
  then show ?case by simp
next
  case (Cons c rest)
  let ?s = "calculateRelevanceScore lc tbl a"
  show ?case
  proof (cases "?s c > bs")
    case True
    with Cons.prems have "assign_loop lc tbl a (Some c, ?s c) rest = (bc', bs')" by simp
    from Cons.IH [OF this] True show ?thesis by (auto split: if_splits)
  next
    case False
    with Cons.prems have "assign_loop lc tbl a (bc, bs) rest = (bc', bs')" by simp
    from Cons.IH [OF this] False show ?thesis by (auto split: if_splits)
  qed
qed

lemma assignCategory_spec:
  assumes "assignCategory lc tbl a = (bc, best)"
  shows "(\<forall>c \<in> set (map fst tbl). calculateRelevanceScore lc tbl a c \<le> best)"
    and "0 < best \<Longrightarrow> bc = find (\<lambda>c. calculateRelevanceScore lc tbl a c = best) (map fst tbl)"
    and "0 < best \<Longrightarrow> bc \<noteq> None"
    and "best = 0 \<Longrightarrow> bc = None"
    and "10 dvd best" and "best \<le> 100"
proof -
  note s = assign_loop_spec [OF assms [unfolded assignCategory_def]]
  from s show "\<forall>c \<in> set (map fst tbl). calculateRelevanceScore lc tbl a c \<le> best" by blast
  from s show "0 < best \<Longrightarrow> bc = find (\<lambda>c. calculateRelevanceScore lc tbl a c = best) (map fst tbl)"
    by (auto split: if_splits)
  from s show "0 < best \<Longrightarrow> bc \<noteq> None" by (auto split: if_splits)
  from s show "best = 0 \<Longrightarrow> bc = None" by (auto split: if_splits)
  have "best = 0 \<or> (\<exists>c. calculateRelevanceScore lc tbl a c = best)"
  proof (cases "best = 0")
    case False
    with s have "find (\<lambda>c. calculateRelevanceScore lc tbl a c = best) (map fst tbl) \<noteq> None"
      by (auto split: if_splits)
    then show ?thesis by (auto simp: find_None_iff)
  qed simp
  then show "10 dvd best" and "best \<le> 100"
    using calculateRelevanceScore_dvd calculateRelevanceScore_le by auto
qed

lemma categorize_map_filter:
  "categorize lc tbl xs = map (labelled lc tbl) (filter (retained lc tbl) xs)"
proof (induction xs)
  case Nil
  show ?case by simp
next
  case (Cons a rest)
  obtain bc s where r: "assignCategory lc tbl a = (bc, s)" by (cases "assignCategory lc tbl a")
  show ?case
  proof (cases bc)
    case None
    with r Cons.IH show ?thesis by (simp add: retained_def)
  next
    case (Some c)
    with r Cons.IH show ?thesis by (simp add: retained_def labelled_def)
  qed
qed

lemma title_labelled: "title (labelled lc tbl a) = title a"
  by (simp add: labelled_def)

lemma score_all_eq:
  "score_all xs =
     map (\<lambda>a. a\<lparr>finalScore := of_nat (relevanceScore a) * (1 / 2)
                  + spec_timeScore (Min (date ` set xs)) (Max (date ` set xs)) (date a) * (1 / 2)\<rparr>) xs"
proof (cases xs)
  case Nil
  then show ?thesis by (simp add: score_all_def)
next
  case (Cons x rest)
  have mx: "fold max (map date rest) (date x) = Max (date ` set xs)"
    using Max.set_eq_fold [of "date x" "map date rest"] Cons by simp
  have mn: "fold min (map date rest) (date x) = Min (date ` set xs)"
    using Min.set_eq_fold [of "date x" "map date rest"] Cons by simp
  have le: "Min (date ` set xs) \<le> Max (date ` set xs)"
  proof -
    have "date x \<in> date ` set xs" using Cons by simp
    then have "Min (date ` set xs) \<le> date x" and "date x \<le> Max (date ` set xs)"
      by simp_all
    then show ?thesis by simp
  qed
  have "\<And>a. calculateFinalScore a (Max (date ` set xs)) (Min (date ` set xs))
      = of_nat (relevanceScore a) * (1 / 2)
        + spec_timeScore (Min (date ` set xs)) (Max (date ` set xs)) (date a) * (1 / 2)"
    using le by (auto simp: calculateFinalScore_def spec_timeScore_def Let_def)
  then show ?thesis
    using Cons mx mn by (simp add: score_all_def Let_def)
qed

section \<open>What the later stages keep\<close>

lemma title_score_all: "map title (score_all xs) = map title xs"
  by (simp add: score_all_eq comp_def)

lemma set_ranked_titles:
  "title ` set (rankedArticles lc tbl allArticles) = title ` set (categorizedArticles lc tbl allArticles)"
proof -
  have "title ` set (rankedArticles lc tbl allArticles)
      = set (map title (score_all (categorizedArticles lc tbl allArticles)))"
    by (simp add: rankedArticles_def sort_by_finalScore_def)
  then show ?thesis by (simp add: title_score_all)
qed

lemma limited_subset_ranked:
  "set (limitedArticles_blended lc tbl allArticles) \<subseteq> set (rankedArticles lc tbl allArticles)"
  by (simp add: limitedArticles_blended_def select_quota_subset)

lemma map_enumerate_field:
  "(\<And>i a. h (f i a) = h a) \<Longrightarrow> map h (map (\<lambda>(i, a). f i a) (enumerate n xs)) = map h xs"
  by (induction xs arbitrary: n) simp_all

lemma snapshot_blended_field:
  assumes "\<And>a s. h (a\<lparr>summary := s\<rparr>) = h a"
  shows "map h (snapshot_blended lc tbl key envs allArticles)
     = map h (limitedArticles_blended lc tbl allArticles)"
proof (cases "configured key")
  case True
  then show ?thesis
    unfolding snapshot_blended_def Let_def
    by (simp only: if_not_P not_not) (rule map_enumerate_field, rule assms)
next
  case False
  then show ?thesis by (simp add: snapshot_blended_def Let_def comp_def assms)
qed

lemma snapshot_blended_titles:
  "title ` set (snapshot_blended lc tbl key envs allArticles)
     = title ` set (limitedArticles_blended lc tbl allArticles)"
proof -
  have "map title (snapshot_blended lc tbl key envs allArticles)
      = map title (limitedArticles_blended lc tbl allArticles)"
    by (rule snapshot_blended_field) simp
  then show ?thesis by (metis list.set_map)
qed

section \<open>Category assignment in the pipeline\<close>

lemma find_Some_mem: "find P xs = Some x \<Longrightarrow> x \<in> set xs \<and> P x"
  by (induction xs) (auto split: if_splits)

lemma not_retained_excluded:
  assumes a: "a \<in> set (deduplicate allArticles)" and n: "\<not> retained lc tbl a"
  shows "title a \<notin> title ` set (categorizedArticles lc tbl allArticles)"
proof
  assume "title a \<in> title ` set (categorizedArticles lc tbl allArticles)"
  then obtain a' where a': "a' \<in> set (deduplicate allArticles)" "retained lc tbl a'"
      and t: "title a' = title a"
    by (auto simp: categorizedArticles_def categorize_map_filter title_labelled)
  have "distinct (map title (deduplicate allArticles))"
    by (simp add: deduplicate_fresh fresh_distinct)
  then have "inj_on title (set (deduplicate allArticles))"
    by (simp add: distinct_map)
  with a a' t have "a' = a" by (auto dest: inj_onD)
  with a' n show False by simp
qed

lemma stage_titles:
  "title ` set (limitedArticles_blended lc tbl allArticles)
     \<subseteq> title ` set (categorizedArticles lc tbl allArticles)"
  using limited_subset_ranked [of lc tbl allArticles] set_ranked_titles [of lc tbl allArticles]
  by blast

lemma tens: "10 dvd (s::nat) \<Longrightarrow> 0 < s \<Longrightarrow> s \<le> 100 \<Longrightarrow> s \<in> {10, 20, 30, 40, 50, 60, 70, 80, 90, 100}"
proof -
  assume "10 dvd s" and p: "0 < s" and l: "s \<le> 100"
  then obtain k where k: "s = 10 * k" by (auto elim: dvdE)
  with p l have "k \<in> {1, 2, 3, 4, 5, 6, 7, 8, 9, 10}" by (simp, arith)
  with k show ?thesis by auto
qed

lemma categorized_invariant:
  assumes "b \<in> set (categorizedArticles lc tbl allArticles)"
  shows "relevanceScore b \<in> {10, 20, 30, 40, 50, 60, 70, 80, 90, 100}"
    and "category b \<noteq> []" and "category b \<in> set (map fst tbl)"
proof -
  from assms obtain a where r: "retained lc tbl a" and b: "b = labelled lc tbl a"
    by (auto simp: categorizedArticles_def categorize_map_filter)
  obtain bc best where e: "assignCategory lc tbl a = (bc, best)"
    by (cases "assignCategory lc tbl a")
  note s = assignCategory_spec [OF e]
  from r e obtain c where c: "bc = Some c" "c \<noteq> []"
    by (auto simp: retained_def split: option.splits)
  with s(4) have pos: "0 < best" by (cases "best = 0") auto
  with s(5,6) have "best \<in> {10, 20, 30, 40, 50, 60, 70, 80, 90, 100}" by (intro tens)
  with b e show "relevanceScore b \<in> {10, 20, 30, 40, 50, 60, 70, 80, 90, 100}"
    by (simp add: labelled_def)
  from b e c show "category b \<noteq> []" by (simp add: labelled_def)
  from s(2) [OF pos] c
  have "find (\<lambda>c. calculateRelevanceScore lc tbl a c = best) (map fst tbl) = Some c" by simp
  then have "c \<in> set (map fst tbl)" by (blast dest: find_Some_mem)
  with b e c show "category b \<in> set (map fst tbl)" by (simp add: labelled_def)
qed

section \<open>Evaluating the shipped table on sample articles\<close>

text \<open>
  The score of an article depends on its title and description only. The lemmas below
  evaluate the three categories of the shipped table on a few titles with an empty
  description, one loop at a time.
\<close>

lemma score_eval:
  assumes "map_of tbl cat = Some kws"
    and "lc (title a @ js '' '' @ description a) = t"
    and "exclude_loop lc t (kw_exclude kws) = False"
    and "include_loop lc t (title a) 0 (kw_include kws) = n"
  shows "calculateRelevanceScore lc tbl a cat = min 100 (n * 10)"
  using assms by (simp add: calculateRelevanceScore_def Let_def)

lemma lookup:
  "map_of CATEGORY_KEYWORDS cat_materials
     = Some \<lparr>kw_include = materials_include, kw_exclude = materials_exclude\<rparr>"
  "map_of CATEGORY_KEYWORDS cat_corrosion = Some \<lparr>kw_include = corrosion_include, kw_exclude = []\<rparr>"
  "map_of CATEGORY_KEYWORDS cat_health = Some \<lparr>kw_include = health_include, kw_exclude = []\<rparr>"
  by (simp_all add: CATEGORY_KEYWORDS_def cat_materials_def cat_corrosion_def cat_health_def)

lemma categories: "map fst CATEGORY_KEYWORDS = [cat_materials, cat_corrosion, cat_health]"
  by (simp add: CATEGORY_KEYWORDS_def)

lemma assign_eval:
  assumes "calculateRelevanceScore lc CATEGORY_KEYWORDS a cat_materials = s1"
    and "calculateRelevanceScore lc CATEGORY_KEYWORDS a cat_corrosion = s2"
    and "calculateRelevanceScore lc CATEGORY_KEYWORDS a cat_health = s3"
  shows "assignCategory lc CATEGORY_KEYWORDS a =
     (let r1 = (if s1 > 0 then (Some cat_materials, s1) else (None, 0));
          r2 = (if s2 > snd r1 then (Some cat_corrosion, s2) else r1)
      in if s3 > snd r2 then (Some cat_health, s3) else r2)"
  using assms by (simp add: assignCategory_def categories Let_def)

lemma scores_Steel:
  assumes "title a = js ''Steel''" and "description a = []"
  shows "calculateRelevanceScore toLowerCase_ascii CATEGORY_KEYWORDS a cat_materials = 30"
    and "calculateRelevanceScore toLowerCase_ascii CATEGORY_KEYWORDS a cat_corrosion = 0"
    and "calculateRelevanceScore toLowerCase_ascii CATEGORY_KEYWORDS a cat_health = 0"
proof -
  have t: "toLowerCase_ascii (title a @ js '' '' @ description a) = js ''steel ''"
    using assms by (simp add: js_def toLowerCase_ascii_def)
  have e: "exclude_loop toLowerCase_ascii (js ''steel '') materials_exclude = False"
    by (simp add: materials_exclude_def js_def toLowerCase_ascii_def)
  have i1: "include_loop toLowerCase_ascii (js ''steel '') (js ''Steel'') 0 materials_include = 3"
    by (simp add: materials_include_def js_def toLowerCase_ascii_def)
  have i2: "include_loop toLowerCase_ascii (js ''steel '') (js ''Steel'') 0 corrosion_include = 0"
    by (simp add: corrosion_include_def js_def toLowerCase_ascii_def)
  have i3: "include_loop toLowerCase_ascii (js ''steel '') (js ''Steel'') 0 health_include = 0"
    by (simp add: health_include_def js_def toLowerCase_ascii_def)
  show "calculateRelevanceScore toLowerCase_ascii CATEGORY_KEYWORDS a cat_materials = 30"
    using score_eval [where lc = toLowerCase_ascii and a = a and n = 3, OF lookup(1) t] e i1 assms
    by simp
  show "calculateRelevanceScore toLowerCase_ascii CATEGORY_KEYWORDS a cat_corrosion = 0"
    using score_eval [where lc = toLowerCase_ascii and a = a and n = 0, OF lookup(2) t] i2 assms
    by simp
  show "calculateRelevanceScore toLowerCase_ascii CATEGORY_KEYWORDS a cat_health = 0"
    using score_eval [where lc = toLowerCase_ascii and a = a and n = 0, OF lookup(3) t] i3 assms
    by simp
qed

lemma assign_Steel:
  assumes "title a = js ''Steel''" and "description a = []"
  shows "assignCategory toLowerCase_ascii CATEGORY_KEYWORDS a = (Some cat_materials, 30)"
  using assign_eval [OF scores_Steel [OF assms]] by simp

lemma scores_Paint:
  assumes "title a = js ''Paint''" and "description a = []"
  shows "calculateRelevanceScore toLowerCase_ascii CATEGORY_KEYWORDS a cat_materials = 0"
    and "calculateRelevanceScore toLowerCase_ascii CATEGORY_KEYWORDS a cat_corrosion = 30"
    and "calculateRelevanceScore toLowerCase_ascii CATEGORY_KEYWORDS a cat_health = 0"
proof -
  have t: "toLowerCase_ascii (title a @ js '' '' @ description a) = js ''paint ''"
    using assms by (simp add: js_def toLowerCase_ascii_def)
  have e: "exclude_loop toLowerCase_ascii (js ''paint '') materials_exclude = False"
    by (simp add: materials_exclude_def js_def toLowerCase_ascii_def)
  have i1: "include_loop toLowerCase_ascii (js ''paint '') (js ''Paint'') 0 materials_include = 0"
    by (simp add: materials_include_def js_def toLowerCase_ascii_def)
  have i2: "include_loop toLowerCase_ascii (js ''paint '') (js ''Paint'') 0 corrosion_include = 3"
    by (simp add: corrosion_include_def js_def toLowerCase_ascii_def)
  have i3: "include_loop toLowerCase_ascii (js ''paint '') (js ''Paint'') 0 health_include = 0"
    by (simp add: health_include_def js_def toLowerCase_ascii_def)
  show "calculateRelevanceScore toLowerCase_ascii CATEGORY_KEYWORDS a cat_materials = 0"
    using score_eval [where lc = toLowerCase_ascii and a = a and n = 0, OF lookup(1) t] e i1 assms
    by simp
  show "calculateRelevanceScore toLowerCase_ascii CATEGORY_KEYWORDS a cat_corrosion = 30"
    using score_eval [where lc = toLowerCase_ascii and a = a and n = 3, OF lookup(2) t] i2 assms
    by simp
  show "calculateRelevanceScore toLowerCase_ascii CATEGORY_KEYWORDS a cat_health = 0"
    using score_eval [where lc = toLowerCase_ascii and a = a and n = 0, OF lookup(3) t] i3 assms
    by simp
qed

lemma assign_Paint:
  assumes "title a = js ''Paint''" and "description a = []"
  shows "assignCategory toLowerCase_ascii CATEGORY_KEYWORDS a = (Some cat_corrosion, 30)"
  using assign_eval [OF scores_Paint [OF assms]] by simp

lemma scores_Rust:
  assumes "title a = js ''Rust''" and "description a = []"
  shows "calculateRelevanceScore toLowerCase_ascii CATEGORY_KEYWORDS a cat_materials = 0"
    and "calculateRelevanceScore toLowerCase_ascii CATEGORY_KEYWORDS a cat_corrosion = 30"
    and "calculateRelevanceScore toLowerCase_ascii CATEGORY_KEYWORDS a cat_health = 0"
proof -
  have t: "toLowerCase_ascii (title a @ js '' '' @ description a) = js ''rust ''"
    using assms by (simp add: js_def toLowerCase_ascii_def)
  have e: "exclude_loop toLowerCase_ascii (js ''rust '') materials_exclude = False"
    by (simp add: materials_exclude_def js_def toLowerCase_ascii_def)
  have i1: "include_loop toLowerCase_ascii (js ''rust '') (js ''Rust'') 0 materials_include = 0"
    by (simp add: materials_include_def js_def toLowerCase_ascii_def)
  have i2: "include_loop toLowerCase_ascii (js ''rust '') (js ''Rust'') 0 corrosion_include = 3"
    by (simp add: corrosion_include_def js_def toLowerCase_ascii_def)
  have i3: "include_loop toLowerCase_ascii (js ''rust '') (js ''Rust'') 0 health_include = 0"
    by (simp add: health_include_def js_def toLowerCase_ascii_def)
  show "calculateRelevanceScore toLowerCase_ascii CATEGORY_KEYWORDS a cat_materials = 0"
    using score_eval [where lc = toLowerCase_ascii and a = a and n = 0, OF lookup(1) t] e i1 assms
    by simp
  show "calculateRelevanceScore toLowerCase_ascii CATEGORY_KEYWORDS a cat_corrosion = 30"
    using score_eval [where lc = toLowerCase_ascii and a = a and n = 3, OF lookup(2) t] i2 assms
    by simp
  show "calculateRelevanceScore toLowerCase_ascii CATEGORY_KEYWORDS a cat_health = 0"
    using score_eval [where lc = toLowerCase_ascii and a = a and n = 0, OF lookup(3) t] i3 assms
    by simp
qed

lemma assign_Rust:
  assumes "title a = js ''Rust''" and "description a = []"
  shows "assignCategory toLowerCase_ascii CATEGORY_KEYWORDS a = (Some cat_corrosion, 30)"
  using assign_eval [OF scores_Rust [OF assms]] by simp

lemma scores_Coating:
  assumes "title a = js ''Coating''" and "description a = []"
  shows "calculateRelevanceScore toLowerCase_ascii CATEGORY_KEYWORDS a cat_materials = 0"
    and "calculateRelevanceScore toLowerCase_ascii CATEGORY_KEYWORDS a cat_corrosion = 30"
    and "calculateRelevanceScore toLowerCase_ascii CATEGORY_KEYWORDS a cat_health = 0"
proof -
  have t: "toLowerCase_ascii (title a @ js '' '' @ description a) = js ''coating ''"
    using assms by (simp add: js_def toLowerCase_ascii_def)
  have e: "exclude_loop toLowerCase_ascii (js ''coating '') materials_exclude = False"
    by (simp add: materials_exclude_def js_def toLowerCase_ascii_def)
  have i1: "include_loop toLowerCase_ascii (js ''coating '') (js ''Coating'') 0 materials_include = 0"
    by (simp add: materials_include_def js_def toLowerCase_ascii_def)
  have i2: "include_loop toLowerCase_ascii (js ''coating '') (js ''Coating'') 0 corrosion_include = 3"
    by (simp add: corrosion_include_def js_def toLowerCase_ascii_def)
  have i3: "include_loop toLowerCase_ascii (js ''coating '') (js ''Coating'') 0 health_include = 0"
    by (simp add: health_include_def js_def toLowerCase_ascii_def)
  show "calculateRelevanceScore toLowerCase_ascii CATEGORY_KEYWORDS a cat_materials = 0"
    using score_eval [where lc = toLowerCase_ascii and a = a and n = 0, OF lookup(1) t] e i1 assms
    by simp
  show "calculateRelevanceScore toLowerCase_ascii CATEGORY_KEYWORDS a cat_corrosion = 30"
    using score_eval [where lc = toLowerCase_ascii and a = a and n = 3, OF lookup(2) t] i2 assms
    by simp
  show "calculateRelevanceScore toLowerCase_ascii CATEGORY_KEYWORDS a cat_health = 0"
    using score_eval [where lc = toLowerCase_ascii and a = a and n = 0, OF lookup(3) t] i3 assms
    by simp
qed

lemma assign_Coating:
  assumes "title a = js ''Coating''" and "description a = []"
  shows "assignCategory toLowerCase_ascii CATEGORY_KEYWORDS a = (Some cat_corrosion, 30)"
  using assign_eval [OF scores_Coating [OF assms]] by simp

lemma scores_News:
  assumes "title a = js ''News''" and "description a = []"
  shows "calculateRelevanceScore toLowerCase_ascii CATEGORY_KEYWORDS a cat_materials = 0"
    and "calculateRelevanceScore toLowerCase_ascii CATEGORY_KEYWORDS a cat_corrosion = 0"
    and "calculateRelevanceScore toLowerCase_ascii CATEGORY_KEYWORDS a cat_health = 0"
proof -
  have t: "toLowerCase_ascii (title a @ js '' '' @ description a) = js ''news ''"
    using assms by (simp add: js_def toLowerCase_ascii_def)
  have e: "exclude_loop toLowerCase_ascii (js ''news '') materials_exclude = False"
    by (simp add: materials_exclude_def js_def toLowerCase_ascii_def)
  have i1: "include_loop toLowerCase_ascii (js ''news '') (js ''News'') 0 materials_include = 0"
    by (simp add: materials_include_def js_def toLowerCase_ascii_def)
  have i2: "include_loop toLowerCase_ascii (js ''news '') (js ''News'') 0 corrosion_include = 0"
    by (simp add: corrosion_include_def js_def toLowerCase_ascii_def)
  have i3: "include_loop toLowerCase_ascii (js ''news '') (js ''News'') 0 health_include = 0"
    by (simp add: health_include_def js_def toLowerCase_ascii_def)
  show "calculateRelevanceScore toLowerCase_ascii CATEGORY_KEYWORDS a cat_materials = 0"
    using score_eval [where lc = toLowerCase_ascii and a = a and n = 0, OF lookup(1) t] e i1 assms
    by simp
  show "calculateRelevanceScore toLowerCase_ascii CATEGORY_KEYWORDS a cat_corrosion = 0"
    using score_eval [where lc = toLowerCase_ascii and a = a and n = 0, OF lookup(2) t] i2 assms
    by simp
  show "calculateRelevanceScore toLowerCase_ascii CATEGORY_KEYWORDS a cat_health = 0"
    using score_eval [where lc = toLowerCase_ascii and a = a and n = 0, OF lookup(3) t] i3 assms
    by simp
qed

lemma assign_News:
  assumes "title a = js ''News''" and "description a = []"
  shows "assignCategory toLowerCase_ascii CATEGORY_KEYWORDS a = (None, 0)"
  using assign_eval [OF scores_News [OF assms]] by simp

lemma scores_Steel_paint:
  assumes "title a = js ''Steel paint''" and "description a = []"
  shows "calculateRelevanceScore toLowerCase_ascii CATEGORY_KEYWORDS a cat_materials = 30"
    and "calculateRelevanceScore toLowerCase_ascii CATEGORY_KEYWORDS a cat_corrosion = 30"
    and "calculateRelevanceScore toLowerCase_ascii CATEGORY_KEYWORDS a cat_health = 0"
proof -
  have t: "toLowerCase_ascii (title a @ js '' '' @ description a) = js ''steel paint ''"
    using assms by (simp add: js_def toLowerCase_ascii_def)
  have e: "exclude_loop toLowerCase_ascii (js ''steel paint '') materials_exclude = False"
    by (simp add: materials_exclude_def js_def toLowerCase_ascii_def)
  have i1: "include_loop toLowerCase_ascii (js ''steel paint '') (js ''Steel paint'') 0 materials_include = 3"
    by (simp add: materials_include_def js_def toLowerCase_ascii_def)
  have i2: "include_loop toLowerCase_ascii (js ''steel paint '') (js ''Steel paint'') 0 corrosion_include = 3"
    by (simp add: corrosion_include_def js_def toLowerCase_ascii_def)
  have i3: "include_loop toLowerCase_ascii (js ''steel paint '') (js ''Steel paint'') 0 health_include = 0"
    by (simp add: health_include_def js_def toLowerCase_ascii_def)
  show "calculateRelevanceScore toLowerCase_ascii CATEGORY_KEYWORDS a cat_materials = 30"
    using score_eval [where lc = toLowerCase_ascii and a = a and n = 3, OF lookup(1) t] e i1 assms
    by simp
  show "calculateRelevanceScore toLowerCase_ascii CATEGORY_KEYWORDS a cat_corrosion = 30"
    using score_eval [where lc = toLowerCase_ascii and a = a and n = 3, OF lookup(2) t] i2 assms
    by simp
  show "calculateRelevanceScore toLowerCase_ascii CATEGORY_KEYWORDS a cat_health = 0"
    using score_eval [where lc = toLowerCase_ascii and a = a and n = 0, OF lookup(3) t] i3 assms
    by simp
qed

lemma assign_Steel_paint:
  assumes "title a = js ''Steel paint''" and "description a = []"
  shows "assignCategory toLowerCase_ascii CATEGORY_KEYWORDS a = (Some cat_materials, 30)"
  using assign_eval [OF scores_Steel_paint [OF assms]] by simp

section \<open>The pipeline on the sample feed\<close>

lemma sample_feed_dedup: "deduplicate sample_feed = sample_feed"
  by (simp add: deduplicate_def sample_feed_def fetched_def js_def)

lemma sample_feed_categorized:
  "categorizedArticles toLowerCase_ascii CATEGORY_KEYWORDS sample_feed =
     [(fetched ''Paint'' ''p'' 1000 '''')\<lparr>category := cat_corrosion, relevanceScore := 30\<rparr>,
      (fetched ''Steel'' ''s'' 0 '''')\<lparr>category := cat_materials, relevanceScore := 30\<rparr>]"
proof -
  have p: "assignCategory toLowerCase_ascii CATEGORY_KEYWORDS (fetched ''Paint'' ''p'' 1000 '''')
             = (Some cat_corrosion, 30)"
    by (rule assign_Paint) (simp_all add: fetched_def js_def)
  have s: "assignCategory toLowerCase_ascii CATEGORY_KEYWORDS (fetched ''Steel'' ''s'' 0 '''')
             = (Some cat_materials, 30)"
    by (rule assign_Steel) (simp_all add: fetched_def js_def)
  have n: "assignCategory toLowerCase_ascii CATEGORY_KEYWORDS (fetched ''News'' ''n'' 2000 '''')
             = (None, 0)"
    by (rule assign_News) (simp_all add: fetched_def js_def)
  have "categorize toLowerCase_ascii CATEGORY_KEYWORDS sample_feed =
     [(fetched ''Paint'' ''p'' 1000 '''')\<lparr>category := cat_corrosion, relevanceScore := 30\<rparr>,
      (fetched ''Steel'' ''s'' 0 '''')\<lparr>category := cat_materials, relevanceScore := 30\<rparr>]"
    by (simp add: sample_feed_def p s n cat_corrosion_def cat_materials_def)
  then show ?thesis by (simp add: categorizedArticles_def sample_feed_dedup)
qed

lemma sample_feed_ranked:
  "rankedArticles toLowerCase_ascii CATEGORY_KEYWORDS sample_feed =
     [(fetched ''Paint'' ''p'' 1000 '''')\<lparr>category := cat_corrosion, relevanceScore := 30, finalScore := 65\<rparr>,
      (fetched ''Steel'' ''s'' 0 '''')\<lparr>category := cat_materials, relevanceScore := 30, finalScore := 15\<rparr>]"
proof -
  have "score_all (categorizedArticles toLowerCase_ascii CATEGORY_KEYWORDS sample_feed) =
     [(fetched ''Paint'' ''p'' 1000 '''')\<lparr>category := cat_corrosion, relevanceScore := 30, finalScore := 65\<rparr>,
      (fetched ''Steel'' ''s'' 0 '''')\<lparr>category := cat_materials, relevanceScore := 30, finalScore := 15\<rparr>]"
    by (simp add: sample_feed_categorized score_all_def calculateFinalScore_def fetched_def Let_def)
  then show ?thesis
    by (simp add: rankedArticles_def sort_by_finalScore_def fetched_def)
qed

lemma select_quota_eval:
  assumes "quota_group xs {} c1 = g1"
    and "quota_group xs (link ` set g1) c2 = g2"
    and "quota_group xs (link ` set g1 \<union> link ` set g2) c3 = g3"
    and "filter (\<lambda>a. link a \<notin> link ` set (g1 @ g2 @ g3)) xs = rest"
    and "length (g1 @ g2 @ g3) + length rest \<le> TOTAL_LIMIT"
  shows "select_quota [c1, c2, c3] xs = g1 @ g2 @ g3 @ rest"
proof -
  have "quota_groups xs {} [c1, c2, c3] = [g1, g2, g3]"
    by (simp add: assms(1-3))
  then have c: "concat (quota_groups xs {} [c1, c2, c3]) = g1 @ g2 @ g3"
    by (simp only: concat.simps append_Nil2)
  from assms(5) have "length rest \<le> nat (int TOTAL_LIMIT - int (length (g1 @ g2 @ g3)))"
    by simp
  then have s: "slice0 rest (int TOTAL_LIMIT - int (length (g1 @ g2 @ g3))) = rest"
    using assms(5) by (simp add: slice0_def)
  show ?thesis
    unfolding select_quota_groups c assms(4) s by simp
qed

lemma sample_feed_limited:
  "limitedArticles_blended toLowerCase_ascii CATEGORY_KEYWORDS sample_feed =
     [(fetched ''Steel'' ''s'' 0 '''')\<lparr>category := cat_materials, relevanceScore := 30, finalScore := 15\<rparr>,
      (fetched ''Paint'' ''p'' 1000 '''')\<lparr>category := cat_corrosion, relevanceScore := 30, finalScore := 65\<rparr>]"
proof -
  let ?paint = "(fetched ''Paint'' ''p'' 1000 '''')\<lparr>category := cat_corrosion, relevanceScore := 30, finalScore := 65\<rparr>"
  let ?steel = "(fetched ''Steel'' ''s'' 0 '''')\<lparr>category := cat_materials, relevanceScore := 30, finalScore := 15\<rparr>"
  note defs = quota_group_def sort_by_relevanceScore_def MIN_PER_CATEGORY_def fetched_def js_def
    cat_materials_def cat_corrosion_def cat_health_def
  have g1: "quota_group [?paint, ?steel] {} cat_materials = [?steel]"
    by (simp add: defs)
  have g2: "quota_group [?paint, ?steel] (link ` set [?steel]) cat_corrosion = [?paint]"
    by (simp add: defs)
  have g3: "quota_group [?paint, ?steel] (link ` set [?steel] \<union> link ` set [?paint]) cat_health = []"
    by (simp add: defs)
  have r: "filter (\<lambda>a. link a \<notin> link ` set ([?steel] @ [?paint] @ [])) [?paint, ?steel] = []"
    by (simp add: fetched_def js_def)
  have "select_quota [cat_materials, cat_corrosion, cat_health] [?paint, ?steel]
      = [?steel] @ [?paint] @ [] @ []"
    by (rule select_quota_eval [OF g1 g2 g3 r]) (simp add: TOTAL_LIMIT_def)
  then show ?thesis
    by (simp add: limitedArticles_blended_def sample_feed_ranked categories)
qed

text \<open>
  C2. \<open>assignCategory\<close> returns the highest relevance score over the categories of the
  table and, when that score is positive, the first category in table order that reaches
  it (\<open>find\<close>: a later category with the same score does not replace it); an article
  with a positive best score is kept with that category and score (the category names
  being non-empty). When the best score is 0 the category is \<open>null\<close>, step 3 drops the
  article, and an article that survived the deduplication with best score 0 is in none
  of the later lists: categorized, ranked, selected, snapshot.
\<close>

theorem C2_category_assignment:
  assumes "assignCategory lc tbl a = (bc, best)"
  shows "(\<forall>c \<in> set (map fst tbl). calculateRelevanceScore lc tbl a c \<le> best)
       \<and> (0 < best \<longrightarrow>
            (\<exists>c. bc = Some c
               \<and> find (\<lambda>c. calculateRelevanceScore lc tbl a c = best) (map fst tbl) = Some c))
       \<and> (0 < best \<longrightarrow> [] \<notin> set (map fst tbl) \<longrightarrow>
            categorize lc tbl [a] = [a\<lparr>category := the bc, relevanceScore := best\<rparr>])
       \<and> (best = 0 \<longrightarrow> bc = None \<and> categorize lc tbl [a] = [])
       \<and> (best = 0 \<longrightarrow> a \<in> set (deduplicate allArticles) \<longrightarrow>
              title a \<notin> title ` set (categorizedArticles lc tbl allArticles)
            \<and> title a \<notin> title ` set (rankedArticles lc tbl allArticles)
            \<and> title a \<notin> title ` set (limitedArticles_blended lc tbl allArticles)
            \<and> title a \<notin> title ` set (snapshot_blended lc tbl key envs allArticles))"
proof -
  note s = assignCategory_spec [OF assms]
  have 1: "\<forall>c \<in> set (map fst tbl). calculateRelevanceScore lc tbl a c \<le> best" by (rule s(1))
  have 2: "0 < best \<longrightarrow>
            (\<exists>c. bc = Some c
               \<and> find (\<lambda>c. calculateRelevanceScore lc tbl a c = best) (map fst tbl) = Some c)"
    using s(2) s(3) by auto
  have 3: "0 < best \<longrightarrow> [] \<notin> set (map fst tbl) \<longrightarrow>
            categorize lc tbl [a] = [a\<lparr>category := the bc, relevanceScore := best\<rparr>]"
  proof (intro impI)
    assume b: "0 < best" and e: "[] \<notin> set (map fst tbl)"
    from 2 b obtain c where c: "bc = Some c"
      "find (\<lambda>c. calculateRelevanceScore lc tbl a c = best) (map fst tbl) = Some c" by blast
    from c(2) have "c \<in> set (map fst tbl)" by (blast dest: find_Some_mem)
    with e have "c \<noteq> []" by blast
    with c assms show "categorize lc tbl [a] = [a\<lparr>category := the bc, relevanceScore := best\<rparr>]"
      by simp
  qed
  have 4: "best = 0 \<longrightarrow> bc = None \<and> categorize lc tbl [a] = []"
    using s(4) assms by auto
  have 5: "best = 0 \<longrightarrow> a \<in> set (deduplicate allArticles) \<longrightarrow>
              title a \<notin> title ` set (categorizedArticles lc tbl allArticles)
            \<and> title a \<notin> title ` set (rankedArticles lc tbl allArticles)
            \<and> title a \<notin> title ` set (limitedArticles_blended lc tbl allArticles)
            \<and> title a \<notin> title ` set (snapshot_blended lc tbl key envs allArticles)"
  proof (intro impI)
    assume b: "best = 0" and m: "a \<in> set (deduplicate allArticles)"
    from b s(4) assms have "\<not> retained lc tbl a" by (simp add: retained_def)
    from not_retained_excluded [OF m this]
    have c: "title a \<notin> title ` set (categorizedArticles lc tbl allArticles)" .
    with stage_titles [of lc tbl allArticles]
    have l: "title a \<notin> title ` set (limitedArticles_blended lc tbl allArticles)" by blast
    from c l show "title a \<notin> title ` set (categorizedArticles lc tbl allArticles)
            \<and> title a \<notin> title ` set (rankedArticles lc tbl allArticles)
            \<and> title a \<notin> title ` set (limitedArticles_blended lc tbl allArticles)
            \<and> title a \<notin> title ` set (snapshot_blended lc tbl key envs allArticles)"
      by (simp only: set_ranked_titles snapshot_blended_titles simp_thms)
  qed
  from 1 2 3 4 5 show ?thesis by blast
qed

section \<open>The order of the selected list\<close>











section \<open>Invariants of the retained articles\<close>

lemma ranked_field:
  assumes "\<And>a v. h (a\<lparr>finalScore := v\<rparr>) = h a"
  shows "h ` set (rankedArticles lc tbl allArticles) = h ` set (categorizedArticles lc tbl allArticles)"
proof -
  have "map h (score_all (categorizedArticles lc tbl allArticles))
      = map h (categorizedArticles lc tbl allArticles)"
    by (subst score_all_eq) (simp add: comp_def assms)
  then have "h ` set (score_all (categorizedArticles lc tbl allArticles))
      = h ` set (categorizedArticles lc tbl allArticles)"
    by (metis list.set_map)
  then show ?thesis by (simp add: rankedArticles_def sort_by_finalScore_def)
qed

lemma snapshot_field_set:
  assumes "\<And>a s. h (a\<lparr>summary := s\<rparr>) = h a"
  shows "h ` set (snapshot_blended lc tbl key envs allArticles)
     = h ` set (limitedArticles_blended lc tbl allArticles)"
  using snapshot_blended_field [of h lc tbl key envs allArticles, OF assms]
  by (metis list.set_map)

lemma stages_from_categorized:
  assumes "b \<in> set (categorizedArticles lc tbl allArticles) \<union> set (rankedArticles lc tbl allArticles)
             \<union> set (limitedArticles_blended lc tbl allArticles)
             \<union> set (snapshot_blended lc tbl key envs allArticles)"
    and f: "\<And>a v. h (a\<lparr>finalScore := v\<rparr>) = h a" and s: "\<And>a v. h (a\<lparr>summary := v\<rparr>) = h a"
  shows "h b \<in> h ` set (categorizedArticles lc tbl allArticles)"
proof -
  have r: "h ` set (rankedArticles lc tbl allArticles) = h ` set (categorizedArticles lc tbl allArticles)"
    by (rule ranked_field) (rule f)
  have l: "h ` set (limitedArticles_blended lc tbl allArticles)
      \<subseteq> h ` set (rankedArticles lc tbl allArticles)"
    by (rule image_mono) (rule limited_subset_ranked)
  have n: "h ` set (snapshot_blended lc tbl key envs allArticles)
      = h ` set (limitedArticles_blended lc tbl allArticles)"
    by (rule snapshot_field_set) (rule s)
  from assms(1) consider "b \<in> set (categorizedArticles lc tbl allArticles)"
    | "b \<in> set (rankedArticles lc tbl allArticles)"
    | "b \<in> set (limitedArticles_blended lc tbl allArticles)"
    | "b \<in> set (snapshot_blended lc tbl key envs allArticles)" by blast
  then show ?thesis
  proof cases
    case 1
    then show ?thesis by (rule imageI)
  next
    case 2
    then have "h b \<in> h ` set (rankedArticles lc tbl allArticles)" by (rule imageI)
    with r show ?thesis by simp
  next
    case 3
    then have "h b \<in> h ` set (limitedArticles_blended lc tbl allArticles)" by (rule imageI)
    with l r show ?thesis by blast
  next
    case 4
    then have "h b \<in> h ` set (snapshot_blended lc tbl key envs allArticles)" by (rule imageI)
    with n l r show ?thesis by blast
  qed
qed

text \<open>
  C9. Every article that survives categorization, in the categorized list and in every
  list after it up to the snapshot, has a relevance score in {10, 20, ..., 100} and a
  category that is not the empty string and is a name of the table.
\<close>

theorem C9_retained_scores:
  assumes "b \<in> set (categorizedArticles lc tbl allArticles) \<union> set (rankedArticles lc tbl allArticles)
             \<union> set (limitedArticles_blended lc tbl allArticles)
             \<union> set (snapshot_blended lc tbl key envs allArticles)"
  shows "relevanceScore b \<in> {10, 20, 30, 40, 50, 60, 70, 80, 90, 100}
       \<and> category b \<noteq> [] \<and> category b \<in> set (map fst tbl)"
proof -
  have "(relevanceScore b, category b)
      \<in> (\<lambda>a. (relevanceScore a, category a)) ` set (categorizedArticles lc tbl allArticles)"
    by (rule stages_from_categorized [OF assms]) simp_all
  then obtain a where a: "a \<in> set (categorizedArticles lc tbl allArticles)"
    and e: "relevanceScore b = relevanceScore a" "category b = category a"
    by auto
  from categorized_invariant [OF a] e show ?thesis by simp
qed

theorem C9_retained_scores_witness:
  "(fetched ''Steel'' ''s'' 0 '''')\<lparr>category := cat_materials, relevanceScore := 30, finalScore := 15\<rparr>
     \<in> set (limitedArticles_blended toLowerCase_ascii CATEGORY_KEYWORDS sample_feed)
   \<and> relevanceScore ((fetched ''Steel'' ''s'' 0 '''')
         \<lparr>category := cat_materials, relevanceScore := 30, finalScore := 15\<rparr>)
       \<in> {10, 20, 30, 40, 50, 60, 70, 80, 90, 100}
   \<and> category ((fetched ''Steel'' ''s'' 0 '''')
         \<lparr>category := cat_materials, relevanceScore := 30, finalScore := 15\<rparr>) \<noteq> []
   \<and> category ((fetched ''Steel'' ''s'' 0 '''')
         \<lparr>category := cat_materials, relevanceScore := 30, finalScore := 15\<rparr>)
       \<in> set (map fst CATEGORY_KEYWORDS)"
proof -
  let ?b = "(fetched ''Steel'' ''s'' 0 '''')\<lparr>category := cat_materials, relevanceScore := 30, finalScore := 15\<rparr>"
  have m: "?b \<in> set (limitedArticles_blended toLowerCase_ascii CATEGORY_KEYWORDS sample_feed)"
    by (simp add: sample_feed_limited)
  then have "?b \<in> set (categorizedArticles toLowerCase_ascii CATEGORY_KEYWORDS sample_feed)
      \<union> set (rankedArticles toLowerCase_ascii CATEGORY_KEYWORDS sample_feed)
      \<union> set (limitedArticles_blended toLowerCase_ascii CATEGORY_KEYWORDS sample_feed)
      \<union> set (snapshot_blended toLowerCase_ascii CATEGORY_KEYWORDS None (\<lambda>i n. Rejected) sample_feed)"
    by blast
  from C9_retained_scores [OF this] m show ?thesis by (intro conjI) blast+
qed





section \<open>The category assignment on sample articles\<close>

lemma names_nonempty: "[] \<notin> set (map fst CATEGORY_KEYWORDS)"
  by (simp add: categories cat_materials_def cat_corrosion_def cat_health_def)

theorem C2_category_assignment_witness:
  "assignCategory toLowerCase_ascii CATEGORY_KEYWORDS (fetched ''Steel paint'' ''u'' 0 '''')
     = (Some cat_materials, 30)
   \<and> calculateRelevanceScore toLowerCase_ascii CATEGORY_KEYWORDS
        (fetched ''Steel paint'' ''u'' 0 '''') cat_corrosion = 30
   \<and> find (\<lambda>c. calculateRelevanceScore toLowerCase_ascii CATEGORY_KEYWORDS
                (fetched ''Steel paint'' ''u'' 0 '''') c = 30) (map fst CATEGORY_KEYWORDS)
       = Some cat_materials
   \<and> categorize toLowerCase_ascii CATEGORY_KEYWORDS [fetched ''Steel paint'' ''u'' 0 '''']
       = [(fetched ''Steel paint'' ''u'' 0 '''')\<lparr>category := cat_materials, relevanceScore := 30\<rparr>]
   \<and> assignCategory toLowerCase_ascii CATEGORY_KEYWORDS (fetched ''News'' ''n'' 2000 '''') = (None, 0)
   \<and> fetched ''News'' ''n'' 2000 '''' \<in> set (deduplicate sample_feed)
   \<and> title (fetched ''News'' ''n'' 2000 '''')
       \<notin> title ` set (snapshot_blended toLowerCase_ascii CATEGORY_KEYWORDS None (\<lambda>i n. Rejected)
                         sample_feed)"
proof -
  have e1: "assignCategory toLowerCase_ascii CATEGORY_KEYWORDS (fetched ''Steel paint'' ''u'' 0 '''')
     = (Some cat_materials, 30)"
    by (rule assign_Steel_paint) (simp_all add: fetched_def js_def)
  have t: "calculateRelevanceScore toLowerCase_ascii CATEGORY_KEYWORDS
        (fetched ''Steel paint'' ''u'' 0 '''') cat_corrosion = 30"
    by (rule scores_Steel_paint) (simp_all add: fetched_def js_def)
  have e2: "assignCategory toLowerCase_ascii CATEGORY_KEYWORDS (fetched ''News'' ''n'' 2000 '''') = (None, 0)"
    by (rule assign_News) (simp_all add: fetched_def js_def)
  have m: "fetched ''News'' ''n'' 2000 '''' \<in> set (deduplicate sample_feed)"
    by (simp add: sample_feed_dedup) (simp add: sample_feed_def)
  from C2_category_assignment [OF e1] names_nonempty
  have a: "find (\<lambda>c. calculateRelevanceScore toLowerCase_ascii CATEGORY_KEYWORDS
                (fetched ''Steel paint'' ''u'' 0 '''') c = 30) (map fst CATEGORY_KEYWORDS)
       = Some cat_materials"
    and b: "categorize toLowerCase_ascii CATEGORY_KEYWORDS [fetched ''Steel paint'' ''u'' 0 '''']
       = [(fetched ''Steel paint'' ''u'' 0 '''')\<lparr>category := cat_materials, relevanceScore := 30\<rparr>]"
    by simp_all
  from C2_category_assignment [OF e2, of sample_feed None "\<lambda>i n. Rejected"] m
  have c: "title (fetched ''News'' ''n'' 2000 '''')
       \<notin> title ` set (snapshot_blended toLowerCase_ascii CATEGORY_KEYWORDS None (\<lambda>i n. Rejected)
                         sample_feed)"
    by simp
  from e1 t a b e2 m c show ?thesis by (intro conjI)
qed

section \<open>The quota on a feed without links\<close>

lemma linkless_feed_dedup: "deduplicate linkless_feed = linkless_feed"
  by (simp add: deduplicate_def linkless_feed_def fetched_def js_def)

lemma linkless_feed_categorized:
  "categorizedArticles toLowerCase_ascii CATEGORY_KEYWORDS linkless_feed =
     [(fetched ''Steel'' '''' 0 '''')\<lparr>category := cat_materials, relevanceScore := 30\<rparr>,
      (fetched ''Paint'' '''' 0 '''')\<lparr>category := cat_corrosion, relevanceScore := 30\<rparr>,
      (fetched ''Rust'' '''' 0 '''')\<lparr>category := cat_corrosion, relevanceScore := 30\<rparr>,
      (fetched ''Coating'' '''' 0 '''')\<lparr>category := cat_corrosion, relevanceScore := 30\<rparr>]"
proof -
  have s: "assignCategory toLowerCase_ascii CATEGORY_KEYWORDS (fetched ''Steel'' '''' 0 '''')
             = (Some cat_materials, 30)"
    by (rule assign_Steel) (simp_all add: fetched_def js_def)
  have p: "assignCategory toLowerCase_ascii CATEGORY_KEYWORDS (fetched ''Paint'' '''' 0 '''')
             = (Some cat_corrosion, 30)"
    by (rule assign_Paint) (simp_all add: fetched_def js_def)
  have r: "assignCategory toLowerCase_ascii CATEGORY_KEYWORDS (fetched ''Rust'' '''' 0 '''')
             = (Some cat_corrosion, 30)"
    by (rule assign_Rust) (simp_all add: fetched_def js_def)
  have c: "assignCategory toLowerCase_ascii CATEGORY_KEYWORDS (fetched ''Coating'' '''' 0 '''')
             = (Some cat_corrosion, 30)"
    by (rule assign_Coating) (simp_all add: fetched_def js_def)
  have "categorize toLowerCase_ascii CATEGORY_KEYWORDS linkless_feed =
     [(fetched ''Steel'' '''' 0 '''')\<lparr>category := cat_materials, relevanceScore := 30\<rparr>,
      (fetched ''Paint'' '''' 0 '''')\<lparr>category := cat_corrosion, relevanceScore := 30\<rparr>,
      (fetched ''Rust'' '''' 0 '''')\<lparr>category := cat_corrosion, relevanceScore := 30\<rparr>,
      (fetched ''Coating'' '''' 0 '''')\<lparr>category := cat_corrosion, relevanceScore := 30\<rparr>]"
    by (simp add: linkless_feed_def s p r c cat_corrosion_def cat_materials_def)
  then show ?thesis by (simp add: categorizedArticles_def linkless_feed_dedup)
qed

lemma linkless_feed_ranked:
  "rankedArticles toLowerCase_ascii CATEGORY_KEYWORDS linkless_feed =
     [(fetched ''Steel'' '''' 0 '''')\<lparr>category := cat_materials, relevanceScore := 30, finalScore := 40\<rparr>,
      (fetched ''Paint'' '''' 0 '''')\<lparr>category := cat_corrosion, relevanceScore := 30, finalScore := 40\<rparr>,
      (fetched ''Rust'' '''' 0 '''')\<lparr>category := cat_corrosion, relevanceScore := 30, finalScore := 40\<rparr>,
      (fetched ''Coating'' '''' 0 '''')\<lparr>category := cat_corrosion, relevanceScore := 30, finalScore := 40\<rparr>]"
proof -
  have "score_all (categorizedArticles toLowerCase_ascii CATEGORY_KEYWORDS linkless_feed) =
     [(fetched ''Steel'' '''' 0 '''')\<lparr>category := cat_materials, relevanceScore := 30, finalScore := 40\<rparr>,
      (fetched ''Paint'' '''' 0 '''')\<lparr>category := cat_corrosion, relevanceScore := 30, finalScore := 40\<rparr>,
      (fetched ''Rust'' '''' 0 '''')\<lparr>category := cat_corrosion, relevanceScore := 30, finalScore := 40\<rparr>,
      (fetched ''Coating'' '''' 0 '''')\<lparr>category := cat_corrosion, relevanceScore := 30, finalScore := 40\<rparr>]"
    by (simp add: linkless_feed_categorized score_all_def calculateFinalScore_def fetched_def Let_def)
  then show ?thesis
    by (simp add: rankedArticles_def sort_by_finalScore_def fetched_def)
qed

lemma linkless_feed_limited:
  "limitedArticles_blended toLowerCase_ascii CATEGORY_KEYWORDS linkless_feed =
     [(fetched ''Steel'' '''' 0 '''')\<lparr>category := cat_materials, relevanceScore := 30, finalScore := 40\<rparr>]"
proof -
  let ?steel = "(fetched ''Steel'' '''' 0 '''')\<lparr>category := cat_materials, relevanceScore := 30, finalScore := 40\<rparr>"
  let ?paint = "(fetched ''Paint'' '''' 0 '''')\<lparr>category := cat_corrosion, relevanceScore := 30, finalScore := 40\<rparr>"
  let ?rust = "(fetched ''Rust'' '''' 0 '''')\<lparr>category := cat_corrosion, relevanceScore := 30, finalScore := 40\<rparr>"
  let ?coating = "(fetched ''Coating'' '''' 0 '''')\<lparr>category := cat_corrosion, relevanceScore := 30, finalScore := 40\<rparr>"
  let ?xs = "[?steel, ?paint, ?rust, ?coating]"
  note defs = quota_group_def sort_by_relevanceScore_def MIN_PER_CATEGORY_def fetched_def js_def
    cat_materials_def cat_corrosion_def cat_health_def
  have g1: "quota_group ?xs {} cat_materials = [?steel]"
    by (simp add: defs)
  have g2: "quota_group ?xs (link ` set [?steel]) cat_corrosion = []"
    by (simp add: defs)
  have g3: "quota_group ?xs (link ` set [?steel] \<union> link ` set []) cat_health = []"
    by (simp add: defs)
  have r: "filter (\<lambda>a. link a \<notin> link ` set ([?steel] @ [] @ [])) ?xs = []"
    by (simp add: fetched_def js_def)
  have "select_quota [cat_materials, cat_corrosion, cat_health] ?xs = [?steel] @ [] @ [] @ []"
    by (rule select_quota_eval [OF g1 g2 g3 r]) (simp add: TOTAL_LIMIT_def)
  then show ?thesis
    by (simp add: limitedArticles_blended_def linkless_feed_ranked categories)
qed

text \<open>
  C4 at the feed without links. Three of the four articles are categorized as corrosion
  protection, so that category has three candidates; the selected list holds the steel
  article only and no corrosion article, because the first round marks the empty link
  as used when it picks the steel article and then filters every other article out, in
  both rounds.
\<close>

theorem C4_linkless_feed:
  "length (filter (\<lambda>a. category a = cat_corrosion)
             (categorizedArticles toLowerCase_ascii CATEGORY_KEYWORDS linkless_feed)) = 3
   \<and> map title (limitedArticles_blended toLowerCase_ascii CATEGORY_KEYWORDS linkless_feed)
       = [js ''Steel'']
   \<and> filter (\<lambda>a. category a = cat_corrosion)
        (limitedArticles_blended toLowerCase_ascii CATEGORY_KEYWORDS linkless_feed) = []
   \<and> length (snapshot_blended toLowerCase_ascii CATEGORY_KEYWORDS key envs linkless_feed) = 1"
  by (simp add: linkless_feed_limited linkless_feed_categorized snapshot_blended_length)
    (simp add: fetched_def cat_materials_def cat_corrosion_def)

section \<open>Summaries of descriptions with CJK text\<close>

lemma isChinese_iff: "isChinese text \<longleftrightarrow> (\<exists>c \<in> set text. 0x4E00 \<le> c \<and> c \<le> 0x9FA5)"
  by (auto simp: isChinese_def list_ex_iff)

lemma length_dots: "length (js ''...'') = 3"
  by (simp add: js_def)

text \<open>
  C7. For a description with at least one code unit in the range U+4E00 to U+9FA5 (the
  test of \<open>isChinese\<close>), \<open>generateSummary\<close> returns the description cut at 150 code
  units followed by "...", whatever the provider, the keys and the network are, and makes
  no request; so does the Qwen summarizer of the keyword edition. The result has 150 + 3
  code units when the description has at least 150, and all of the description plus
  "..." when it is shorter.
\<close>

theorem C7_cjk_summary:
  assumes "\<exists>c \<in> set text. 0x4E00 \<le> c \<and> c \<le> 0x9FA5"
  shows "generateSummary AI_PROVIDER DOUBAO_API_KEY DEEPSEEK_API_KEY env text
           = (take 150 text @ js ''...'', [])
       \<and> generateSummaryWithQwen QWEN_API_KEY env text = (take 150 text @ js ''...'', [])
       \<and> length (take 150 text @ js ''...'') = min 150 (length text) + 3"
proof -
  from assms have "isChinese text" by (simp add: isChinese_iff)
  then show ?thesis
    by (simp add: generateSummary_def generateSummaryWithQwen_def fallback_def substring0_def
        length_dots min.commute)
qed

theorem C7_cjk_summary_witness:
  "(0x4E00::16 word) \<le> 0x6C7D \<and> (0x6C7D::16 word) \<le> 0x9FA5
   \<and> generateSummary (js ''doubao'') (Some (js ''key'')) None (replies []) [0x6C7D, 0x8F66]
       = ([0x6C7D, 0x8F66, 0x2E, 0x2E, 0x2E], [])
   \<and> generateSummary (js ''doubao'') (Some (js ''key'')) None (replies [])
        (replicate 200 0x6C7D)
       = (replicate 150 0x6C7D @ [0x2E, 0x2E, 0x2E], [])
   \<and> length (replicate 150 (0x6C7D::16 word) @ [0x2E, 0x2E, 0x2E]) = 153"
proof -
  have a: "\<exists>c \<in> set [0x6C7D, 0x8F66 :: 16 word]. 0x4E00 \<le> c \<and> c \<le> 0x9FA5" by simp
  have b: "\<exists>c \<in> set (replicate 200 (0x6C7D :: 16 word)). 0x4E00 \<le> c \<and> c \<le> 0x9FA5" by simp
  have d: "js ''...'' = [0x2E, 0x2E, 0x2E]" by (simp add: js_def)
  from C7_cjk_summary [OF a, of "js ''doubao''" "Some (js ''key'')" None "replies []"]
    C7_cjk_summary [OF b, of "js ''doubao''" "Some (js ''key'')" None "replies []"]
  show ?thesis by (simp add: d)
qed

section \<open>The retry policy of the summarizers\<close>






















section \<open>The quota when links are distinct\<close>

lemma quota_group_unused:
  assumes inj: "inj_on link (set xs)"
    and used: "used \<subseteq> link ` {b \<in> set xs. category b \<noteq> cat}"
  shows "quota_group xs used cat
     = take MIN_PER_CATEGORY (sort_by_relevanceScore (filter (\<lambda>a. category a = cat) xs))"
proof -
  have "filter (\<lambda>a. category a = cat \<and> link a \<notin> used) xs = filter (\<lambda>a. category a = cat) xs"
  proof (rule filter_cong [OF refl])
    fix a assume a: "a \<in> set xs"
    show "(category a = cat \<and> link a \<notin> used) = (category a = cat)"
    proof (cases "category a = cat")
      case True
      have "link a \<notin> used"
      proof
        assume "link a \<in> used"
        with used obtain b where b: "b \<in> set xs" "category b \<noteq> cat" "link a = link b" by auto
        with inj a have "a = b" by (auto dest: inj_onD)
        with True b show False by simp
      qed
      with True show ?thesis by simp
    qed simp
  qed
  then show ?thesis by (simp add: quota_group_def)
qed

lemma quota_groups_distinct_links:
  assumes inj: "inj_on link (set xs)"
  shows "distinct cats \<Longrightarrow> used \<subseteq> link ` {b \<in> set xs. category b \<notin> set cats} \<Longrightarrow>
     quota_groups xs used cats
       = map (\<lambda>c. take MIN_PER_CATEGORY
                    (sort_by_relevanceScore (filter (\<lambda>a. category a = c) xs))) cats"
proof (induction cats arbitrary: used)
  case Nil
  show ?case by simp
next
  case (Cons cat rest)
  from Cons.prems(2) have u: "used \<subseteq> link ` {b \<in> set xs. category b \<noteq> cat}" by auto
  note g = quota_group_unused [OF inj u]
  have "used \<union> link ` set (quota_group xs used cat)
      \<subseteq> link ` {b \<in> set xs. category b \<notin> set rest}"
  proof
    fix l assume "l \<in> used \<union> link ` set (quota_group xs used cat)"
    then show "l \<in> link ` {b \<in> set xs. category b \<notin> set rest}"
    proof
      assume "l \<in> used"
      with Cons.prems(2) show ?thesis by auto
    next
      assume "l \<in> link ` set (quota_group xs used cat)"
      then obtain a where a: "a \<in> set (quota_group xs used cat)" "l = link a" by auto
      with quota_group_props(1) [of xs used cat] have "category a = cat" "a \<in> set xs" by auto
      moreover from Cons.prems(1) have "cat \<notin> set rest" by simp
      ultimately show ?thesis using a by auto
    qed
  qed
  moreover from Cons.prems(1) have "distinct rest" by simp
  ultimately have "quota_groups xs (used \<union> link ` set (quota_group xs used cat)) rest
       = map (\<lambda>c. take MIN_PER_CATEGORY
                    (sort_by_relevanceScore (filter (\<lambda>a. category a = c) xs))) rest"
    by (rule Cons.IH [rotated])
  with g show ?case by simp
qed

lemma filter_concat_length:
  "g \<in> set gs \<Longrightarrow> length (filter P g) \<le> length (filter P (concat gs))"
  by (induction gs) auto

text \<open>
  When the ranked articles have pairwise distinct links and the category names are
  distinct, the first round is not disturbed: for every category its first three
  articles by descending relevance score (all of them when there are fewer) are in the
  selected list.
\<close>

lemma quota_minimum_distinct_links:
  assumes "distinct (map link xs)" and "distinct cats" and "c \<in> set cats"
  shows "set (take MIN_PER_CATEGORY (sort_by_relevanceScore (filter (\<lambda>a. category a = c) xs)))
           \<subseteq> set (select_quota cats xs)"
    and "min MIN_PER_CATEGORY (length (filter (\<lambda>a. category a = c) xs))
           \<le> length (filter (\<lambda>a. category a = c) (select_quota cats xs))"
proof -
  let ?g = "take MIN_PER_CATEGORY (sort_by_relevanceScore (filter (\<lambda>a. category a = c) xs))"
  from assms(1) have inj: "inj_on link (set xs)" by (simp add: distinct_map)
  have "quota_groups xs {} cats
       = map (\<lambda>c. take MIN_PER_CATEGORY
                    (sort_by_relevanceScore (filter (\<lambda>a. category a = c) xs))) cats"
    by (rule quota_groups_distinct_links [OF inj assms(2)]) simp
  with assms(3) have m: "?g \<in> set (quota_groups xs {} cats)" by auto
  then have "set ?g \<subseteq> set (concat (quota_groups xs {} cats))" by auto
  then show "set ?g \<subseteq> set (select_quota cats xs)" by (auto simp: select_quota_groups)
  have all: "filter (\<lambda>a. category a = c) ?g = ?g"
  proof (rule filter_True)
    show "\<forall>a \<in> set ?g. category a = c"
      by (auto simp: sort_by_relevanceScore_def dest: in_set_takeD)
  qed
  have "length ?g = min MIN_PER_CATEGORY (length (filter (\<lambda>a. category a = c) xs))"
    by (simp add: sort_by_relevanceScore_def min.commute)
  moreover from filter_concat_length [OF m, of "\<lambda>a. category a = c"] all
  have "length ?g \<le> length (filter (\<lambda>a. category a = c) (concat (quota_groups xs {} cats)))"
    by simp
  ultimately show "min MIN_PER_CATEGORY (length (filter (\<lambda>a. category a = c) xs))
           \<le> length (filter (\<lambda>a. category a = c) (select_quota cats xs))"
    by (simp add: select_quota_groups)
qed

section \<open>Scenarios of the specification\<close>

text \<open>
  Two entries with the same title from different sources: the first one is kept. With no
  credential configured, every article of the snapshot has its description cut at 150
  code units plus "..." as summary.
\<close>

lemma dedup_same_title:
  "deduplicate [fetched ''EV Battery News'' ''a'' 1 '''', fetched ''EV Battery News'' ''b'' 2 '''']
     = [fetched ''EV Battery News'' ''a'' 1 '''']"
  by (simp add: deduplicate_def fetched_def)

lemma no_credential_blended:
  assumes "\<not> configured key" and "a \<in> set (snapshot_blended lc tbl key envs allArticles)"
  shows "summary a = take 150 (description a) @ js ''...''"
  using assms by (auto simp: snapshot_blended_def Let_def substring0_def)

lemma no_credential_recency:
  assumes "\<not> configured dk" and "\<not> configured sk"
    and "a \<in> set (snapshot_recency p dk sk envs allArticles)"
  shows "summary a = take 150 (description a) @ js ''...''"
  using assms by (auto simp: snapshot_recency_def Let_def substring0_def)

end
